theory Spec2Isabelle
  imports Complex_Main "HOL-Library.Word" "HOL-Library.Code_Target_Numeral"
begin

section \<open>Bytes and the text encodings of the platform\<close>

text \<open>
  A \<open>Uint8Array\<close> or \<open>Buffer\<close> is a list of bytes. A JavaScript string is a list of
  code units; each \<^typ>\<open>char\<close> stands for one code unit (the strings the services
  compare against, split and slice are ASCII).
\<close>

type_synonym byte = "8 word"
type_synonym bytes = "byte list"

subsection \<open>Hexadecimal: \<open>buf.toString('hex')\<close> and \<open>Buffer.from(s, 'hex')\<close>\<close>

definition hex_digits :: string where
  "hex_digits = ''0123456789abcdef''"

definition hex_val :: "char \<Rightarrow> nat option" where
  "hex_val c =
     (let n = (of_char c :: nat) in
      if 48 \<le> n \<and> n \<le> 57 then Some (n - 48)
      else if 97 \<le> n \<and> n \<le> 102 then Some (n - 87)
      else if 65 \<le> n \<and> n \<le> 70 then Some (n - 55)
      else None)"

definition hex_byte :: "byte \<Rightarrow> string" where
  "hex_byte b = [hex_digits ! (unat b div 16), hex_digits ! (unat b mod 16)]"

definition hex_encode :: "bytes \<Rightarrow> string" where
  "hex_encode bs = concat (map hex_byte bs)"

text \<open>
  Decoding reads two digits at a time and stops at the first pair that is not
  hexadecimal; a trailing single character is dropped.
\<close>

fun hex_decode :: "string \<Rightarrow> bytes" where
  "hex_decode (a # b # rest) =
     (case (hex_val a, hex_val b) of
        (Some x, Some y) \<Rightarrow> of_nat (16 * x + y) # hex_decode rest
      | _ \<Rightarrow> [])"
| "hex_decode _ = []"

subsection \<open>Base64: \<open>buf.toString('base64')\<close> and \<open>Buffer.from(s, 'base64')\<close>\<close>

definition b64_alphabet :: string where
  "b64_alphabet = ''ABCDEFGHIJKLMNOPQRSTUVWXYZabcdefghijklmnopqrstuvwxyz0123456789+/''"

definition b64_char :: "nat \<Rightarrow> char" where
  "b64_char i = b64_alphabet ! i"

text \<open>Standard base64 (RFC 4648) with \<open>=\<close> padding, three bytes to four characters.\<close>

fun base64_encode :: "bytes \<Rightarrow> string" where
  "base64_encode (a # b # c # rest) =
     (let n = unat a * 65536 + unat b * 256 + unat c in
      [b64_char (n div 262144), b64_char (n div 4096 mod 64),
       b64_char (n div 64 mod 64), b64_char (n mod 64)] @ base64_encode rest)"
| "base64_encode [a, b] =
     (let n = (unat a * 256 + unat b) * 4 in
      [b64_char (n div 4096), b64_char (n div 64 mod 64), b64_char (n mod 64), CHR ''=''])"
| "base64_encode [a] =
     (let n = unat a * 16 in
      [b64_char (n div 64), b64_char (n mod 64), CHR ''='', CHR ''=''])"
| "base64_encode [] = []"

definition char_index :: "string \<Rightarrow> char \<Rightarrow> nat option" where
  "char_index alphabet c = map_of (zip alphabet [0..<length alphabet]) c"

text \<open>
  The decoder of \<open>Buffer.from(s, 'base64')\<close> is lenient: it also accepts the URL-safe
  characters \<open>-\<close> and \<open>_\<close>, skips every character outside the alphabet, and stops at
  the first \<open>=\<close>. A final group of two or three characters gives one or two bytes.
\<close>

definition b64_val :: "char \<Rightarrow> nat option" where
  "b64_val c =
     (if c = CHR ''-'' then Some 62 else if c = CHR ''_'' then Some 63
      else char_index b64_alphabet c)"

definition b64_sextets :: "string \<Rightarrow> nat list" where
  "b64_sextets s = List.map_filter b64_val (takeWhile (\<lambda>c. c \<noteq> CHR ''='') s)"

fun b64_groups :: "nat list \<Rightarrow> bytes" where
  "b64_groups (w # x # y # z # rest) =
     (let n = ((w * 64 + x) * 64 + y) * 64 + z in
      [of_nat (n div 65536), of_nat (n div 256 mod 256), of_nat (n mod 256)] @ b64_groups rest)"
| "b64_groups [w, x, y] =
     (let n = (w * 64 + x) * 64 + y in [of_nat (n div 1024), of_nat (n div 4 mod 256)])"
| "b64_groups [w, x] = [of_nat ((w * 64 + x) div 16)]"
| "b64_groups _ = []"

definition base64_decode :: "string \<Rightarrow> bytes" where
  "base64_decode s = b64_groups (b64_sextets s)"

subsection \<open>Base64 in the words of the standard\<close>

text \<open>
  Modelled from the spec: ``the standard base64 encoding'' of RFC 4648, in the
  standard's own terms. The input is a string of bits, eight per byte, the most
  significant bit first; it is cut into groups of six bits, the last group filled up
  with zero bits; each group, read as a number, selects a character of the alphabet;
  \<open>=\<close> characters fill the output up to a multiple of four characters.
\<close>

definition byte_bits :: "byte \<Rightarrow> bool list" where
  "byte_bits b = map (\<lambda>i. odd (unat b div 2 ^ i)) [7, 6, 5, 4, 3, 2, 1, 0]"

definition bits_value :: "bool list \<Rightarrow> nat" where
  "bits_value xs = foldl (\<lambda>v x. 2 * v + (if x then 1 else 0)) 0 xs"

function sextets_of :: "bool list \<Rightarrow> bool list list" where
  "sextets_of xs =
     (if xs = [] then [] else take 6 (xs @ replicate 5 False) # sextets_of (drop 6 xs))"
  by pat_completeness auto
termination
  by (relation "measure length") auto

declare sextets_of.simps [simp del]

definition rfc_chars :: "bytes \<Rightarrow> string" where
  "rfc_chars bs =
     map (\<lambda>g. b64_alphabet ! bits_value g) (sextets_of (concat (map byte_bits bs)))"

definition rfc4648_base64 :: "bytes \<Rightarrow> string" where
  "rfc4648_base64 bs =
     rfc_chars bs @ replicate ((4 - length (rfc_chars bs) mod 4) mod 4) (CHR ''='')"

subsection \<open>Base58 (Bitcoin alphabet), as \<open>base58btc\<close> of \<open>multiformats\<close> encodes\<close>

definition b58_alphabet :: string where
  "b58_alphabet = ''123456789ABCDEFGHJKLMNPQRSTUVWXYZabcdefghijkmnopqrstuvwxyz''"

text \<open>Big-endian value of a byte string, and the digits of a number, most significant first.\<close>

definition nat_of_bytes :: "bytes \<Rightarrow> nat" where
  "nat_of_bytes bs = foldl (\<lambda>acc b. acc * 256 + unat b) 0 bs"

function digits58 :: "nat \<Rightarrow> nat list" where
  "digits58 n = (if n = 0 then [] else digits58 (n div 58) @ [n mod 58])"
  by pat_completeness auto
termination
  by (relation "measure id") auto

declare digits58.simps [simp del]

text \<open>
  Every leading zero byte becomes the character \<open>1\<close>; the remaining bytes, read as one
  big-endian number, are written in base 58.
\<close>

definition base58_encode :: "bytes \<Rightarrow> string" where
  "base58_encode bs =
     replicate (length (takeWhile (\<lambda>b. b = 0) bs)) (CHR ''1'')
       @ map (\<lambda>d. b58_alphabet ! d) (digits58 (nat_of_bytes bs))"

text \<open>\<open>base58btc.encode\<close> returns the multibase form: the selector \<open>z\<close>, then the digits.\<close>

definition base58btc_encode :: "bytes \<Rightarrow> string" where
  "base58btc_encode bs = CHR ''z'' # base58_encode bs"

section \<open>JavaScript values\<close>

text \<open>
  The credential handed to verification is whatever JSON the caller sent, so its
  fields are arbitrary values. An object is the list of its own properties in property
  order; reading a property that is not there yields \<open>undefined\<close>.
\<close>

datatype jsnum = Finite rat | Infinite | NaN

datatype jsval =
    JUndefined
  | JNull
  | JBool bool
  | JNum jsnum
  | JStr string
  | JArr "jsval list"
  | JObj "(string \<times> jsval) list"

type_synonym jsobject = "(string \<times> jsval) list"

text \<open>Truthiness: what \<open>!v\<close> and \<open>v || d\<close> test.\<close>

fun truthy :: "jsval \<Rightarrow> bool" where
  "truthy JUndefined = False"
| "truthy JNull = False"
| "truthy (JBool b) = b"
| "truthy (JNum (Finite q)) = (q \<noteq> 0)"
| "truthy (JNum Infinite) = True"
| "truthy (JNum NaN) = False"
| "truthy (JStr s) = (s \<noteq> [])"
| "truthy (JArr _) = True"
| "truthy (JObj _) = True"

definition js_or :: "jsval \<Rightarrow> jsval \<Rightarrow> jsval" where
  "js_or v d = (if truthy v then v else d)"

text \<open>
  \<open>v.k\<close> and \<open>v?.k\<close> for the property names the services read (\<open>@context\<close>,
  \<open>type\<close>, \<open>issuer\<close>, \<open>issuanceDate\<close>, \<open>credentialSubject\<close>, \<open>id\<close>, \<open>proof\<close>,
  \<open>proofValue\<close>): no string, number, boolean or array has a property of these names.
  The services apply \<open>v.k\<close> without \<open>?.\<close> to truthy values only, so the \<open>TypeError\<close>
  of reading a property of \<open>null\<close> or \<open>undefined\<close> cannot arise.
\<close>

fun js_get :: "jsval \<Rightarrow> string \<Rightarrow> jsval" where
  "js_get (JObj kvs) k = (case map_of kvs k of Some v \<Rightarrow> v | None \<Rightarrow> JUndefined)"
| "js_get _ k = JUndefined"

text \<open>
  Property order: keys that are array indices (canonical decimal numerals below
  \<open>2^32 - 1\<close>) come first, in ascending numeric order; all other keys follow in the
  order of their creation. Writing an existing key keeps its place.
\<close>

definition is_digit :: "char \<Rightarrow> bool" where
  "is_digit c \<longleftrightarrow> 48 \<le> (of_char c :: nat) \<and> (of_char c :: nat) \<le> 57"

definition decimal_value :: "string \<Rightarrow> nat" where
  "decimal_value s = foldl (\<lambda>acc c. acc * 10 + ((of_char c :: nat) - 48)) 0 s"

definition is_index_key :: "string \<Rightarrow> bool" where
  "is_index_key k \<longleftrightarrow>
     k \<noteq> [] \<and> list_all is_digit k \<and> (k = ''0'' \<or> hd k \<noteq> CHR ''0'')
       \<and> decimal_value k < 4294967295"

definition comes_before :: "string \<Rightarrow> string \<times> jsval \<Rightarrow> bool" where
  "comes_before k e \<longleftrightarrow> is_index_key (fst e) \<and> decimal_value (fst e) < decimal_value k"

definition js_put :: "jsobject \<Rightarrow> string \<Rightarrow> jsval \<Rightarrow> jsobject" where
  "js_put obj k v =
     (if k \<in> set (map fst obj) then map (\<lambda>(k', v'). if k' = k then (k', v) else (k', v')) obj
      else if is_index_key k
        then takeWhile (comes_before k) obj @ [(k, v)] @ dropWhile (comes_before k) obj
      else obj @ [(k, v)])"

text \<open>Object spread \<open>{...target, ...source}\<close>: the source's properties are written in order.\<close>

definition js_spread :: "jsobject \<Rightarrow> jsobject \<Rightarrow> jsobject" where
  "js_spread target source = foldl (\<lambda>obj (k, v). js_put obj k v) target source"

text \<open>\<open>s.split(c)\<close> for a one-character separator.\<close>

fun js_split :: "char \<Rightarrow> string \<Rightarrow> string list" where
  "js_split c [] = [[]]"
| "js_split c (x # xs) =
     (if x = c then [] # js_split c xs
      else (case js_split c xs of p # ps \<Rightarrow> (x # p) # ps | [] \<Rightarrow> [[x]]))"

text \<open>\<open>`${xs[i]}`\<close>: an element that is not there prints as \<open>undefined\<close>.\<close>

definition js_nth_text :: "string list \<Rightarrow> nat \<Rightarrow> string" where
  "js_nth_text xs i = (if i < length xs then xs ! i else ''undefined'')"

section \<open>What the services take from outside\<close>

text \<open>
  A thrown value: an \<open>Error\<close> with its message, or anything else.
\<close>

datatype exn = Error string | Thrown

text \<open>
  The curve arithmetic of \<open>@noble/curves\<close> and the JSON serializer are not part of the
  repository; the services are modelled over any behaviour of them. Each function
  that can throw returns a sum. \<open>utf8_json v\<close> is
  \<open>new TextEncoder().encode(JSON.stringify(v))\<close>. An ECDSA signature is the pair of
  numbers \<open>r\<close> and \<open>s\<close> that \<open>secp256k1.sign\<close> returns as an object.
\<close>

datatype ecdsa_signature = Signature (sig_r: nat) (sig_s: nat)

record externals =
  ed25519_getPublicKey :: "bytes \<Rightarrow> bytes"
  ed25519_sign :: "bytes \<Rightarrow> bytes \<Rightarrow> exn + bytes"
  ed25519_verify :: "bytes \<Rightarrow> bytes \<Rightarrow> bytes \<Rightarrow> exn + bool"
  secp256k1_getPublicKey :: "bytes \<Rightarrow> bytes"
  secp256k1_sign :: "bytes \<Rightarrow> bytes \<Rightarrow> exn + ecdsa_signature"
  secp256k1_verify :: "bytes \<Rightarrow> bytes \<Rightarrow> bytes \<Rightarrow> exn + bool"
  utf8_json :: "jsval \<Rightarrow> bytes"

text \<open>
  Modelled from the spec: the method \<open>toCompactRawBytes\<close> of a signature object, whose
  code is the library's. The spec asks for ``a fixed-length (64-byte) compact signature
  encoding (not a DER/variable encoding)'': \<open>r\<close> as a 32-byte big-endian number followed
  by \<open>s\<close> as a 32-byte big-endian number. (The library builds signature objects with
  \<open>0 < r, s < n < 2^256\<close> only; \<open>be_bytes k v\<close> keeps the low \<open>k\<close> bytes of \<open>v\<close>.)
\<close>

fun be_bytes :: "nat \<Rightarrow> nat \<Rightarrow> bytes" where
  "be_bytes 0 v = []"
| "be_bytes (Suc k) v = be_bytes k (v div 256) @ [of_nat (v mod 256)]"

definition toCompactRawBytes :: "ecdsa_signature \<Rightarrow> bytes" where
  "toCompactRawBytes sg = be_bytes 32 (sig_r sg) @ be_bytes 32 (sig_s sg)"

section \<open>crypto.ts\<close>

record KeyPair =
  publicKey :: bytes
  privateKey :: bytes
  publicKeyHex :: string
  privateKeyHex :: string

text \<open>
  The random private key drawn by \<open>utils.randomPrivateKey()\<close> is the argument \<open>sk\<close>.
\<close>

definition generateEd25519KeyPair :: "externals \<Rightarrow> bytes \<Rightarrow> KeyPair" where
  "generateEd25519KeyPair X sk =
     (let pk = ed25519_getPublicKey X sk in
      \<lparr>publicKey = pk, privateKey = sk,
       publicKeyHex = hex_encode pk, privateKeyHex = hex_encode sk\<rparr>)"

definition generateSecp256k1KeyPair :: "externals \<Rightarrow> bytes \<Rightarrow> KeyPair" where
  "generateSecp256k1KeyPair X sk =
     (let pk = secp256k1_getPublicKey X sk in
      \<lparr>publicKey = pk, privateKey = sk,
       publicKeyHex = hex_encode pk, privateKeyHex = hex_encode sk\<rparr>)"

definition signEd25519 :: "externals \<Rightarrow> bytes \<Rightarrow> bytes \<Rightarrow> exn + bytes" where
  "signEd25519 X message sk = ed25519_sign X message sk"

definition verifyEd25519 :: "externals \<Rightarrow> bytes \<Rightarrow> bytes \<Rightarrow> bytes \<Rightarrow> exn + bool" where
  "verifyEd25519 X signature message pk = ed25519_verify X signature message pk"

definition signSecp256k1 :: "externals \<Rightarrow> bytes \<Rightarrow> bytes \<Rightarrow> exn + bytes" where
  "signSecp256k1 X message sk =
     (case secp256k1_sign X message sk of
        Inl e \<Rightarrow> Inl e
      | Inr sg \<Rightarrow> Inr (toCompactRawBytes sg))"

text \<open>Only this one of the four wrappers has a \<open>try\<close>/\<open>catch\<close>.\<close>

definition verifySecp256k1 :: "externals \<Rightarrow> bytes \<Rightarrow> bytes \<Rightarrow> bytes \<Rightarrow> exn + bool" where
  "verifySecp256k1 X signature message pk =
     (case secp256k1_verify X signature message pk of
        Inl e \<Rightarrow> Inr False
      | Inr ok \<Rightarrow> Inr ok)"

section \<open>services/did.ts\<close>

record VerificationMethod =
  vm_id :: string
  vm_type :: string
  vm_controller :: string
  vm_publicKeyMultibase :: string

record DIDDocument =
  doc_context :: "string list"
  doc_id :: string
  verificationMethod :: "VerificationMethod list"
  authentication :: "string list"
  assertionMethod :: "string list"
  capabilityInvocation :: "string list"
  capabilityDelegation :: "string list"

record DidKey =
  did :: string
  keyPair :: KeyPair
  didDocument :: DIDDocument

text \<open>
  \<open>generateDidKey(keyType)\<close>; \<open>sk\<close> is the private key the generator draws. Every key
  type other than \<open>ed25519\<close> takes the \<open>else\<close> branch.
\<close>

definition generateDidKey :: "externals \<Rightarrow> string \<Rightarrow> bytes \<Rightarrow> DidKey" where
  "generateDidKey X keyType sk =
     (let kp = (if keyType = ''ed25519'' then generateEd25519KeyPair X sk
                else generateSecp256k1KeyPair X sk);
          multicodecPrefix = (if keyType = ''ed25519'' then [0xed, 0x01] else [0xe7, 0x01]);
          publicKeyBytes = multicodecPrefix @ publicKey kp;
          publicKeyMultibase = CHR ''z'' # drop 1 (base58btc_encode publicKeyBytes);
          d = ''did:key:'' @ publicKeyMultibase;
          vmId = d @ ''#'' @ publicKeyMultibase
      in \<lparr>did = d, keyPair = kp,
          didDocument =
            \<lparr>doc_context = [''https://www.w3.org/ns/did/v1''],
             doc_id = d,
             verificationMethod =
               [\<lparr>vm_id = vmId,
                 vm_type = (if keyType = ''ed25519'' then ''Ed25519VerificationKey2020''
                            else ''EcdsaSecp256k1VerificationKey2019''),
                 vm_controller = d,
                 vm_publicKeyMultibase = publicKeyMultibase\<rparr>],
             authentication = [vmId],
             assertionMethod = [vmId],
             capabilityInvocation = [vmId],
             capabilityDelegation = [vmId]\<rparr>\<rparr>)"

subsection \<open>Decoding a DID\<close>

text \<open>
  Modelled from the spec: the decoding direction of KeyCodec (``encodes public keys into
  the \<open>did:key\<close> multibase/multicodec representation and back''), which no file of the
  repository implements. \<open>decodeDidKey\<close> strips \<open>did:key:\<close> and the multibase
  selector \<open>z\<close>, decodes base 58 (each leading \<open>1\<close> is a zero byte, the digits are
  one big-endian number) and drops the two-byte multicodec prefix.
\<close>

function bytes_of_nat :: "nat \<Rightarrow> bytes" where
  "bytes_of_nat n = (if n = 0 then [] else bytes_of_nat (n div 256) @ [of_nat (n mod 256)])"
  by pat_completeness auto
termination
  by (relation "measure id") auto

declare bytes_of_nat.simps [simp del]

definition base58_decode :: "string \<Rightarrow> bytes option" where
  "base58_decode s =
     (if list_all (\<lambda>c. char_index b58_alphabet c \<noteq> None) s
      then Some (replicate (length (takeWhile (\<lambda>c. c = CHR ''1'') s)) 0
                   @ bytes_of_nat (foldl (\<lambda>acc c. acc * 58 + the (char_index b58_alphabet c)) 0 s))
      else None)"

definition decodeDidKey :: "string \<Rightarrow> bytes option" where
  "decodeDidKey d =
     (if take 9 d = ''did:key:z''
      then (case base58_decode (drop 9 d) of
              Some bs \<Rightarrow> (if 2 \<le> length bs then Some (drop 2 bs) else None)
            | None \<Rightarrow> None)
      else None)"

section \<open>services/vc.ts\<close>

subsection \<open>Issuance\<close>

text \<open>
  Lines 35 to 47, the credential before it is signed. The clock reading \<open>now\<close> and
  the fresh \<open>uuid\<close> are arguments. An object literal whose keys are written out lists
  them in property order, none of them being an array index; the spread of \<open>claims\<close>
  writes into the literal \<open>{id: subjectDid}\<close>.
\<close>

definition unsigned_credential ::
  "string \<Rightarrow> string \<Rightarrow> string \<Rightarrow> string \<Rightarrow> string \<Rightarrow> jsobject \<Rightarrow> jsobject" where
  "unsigned_credential now uuid issuerDid subjectDid credentialType claims =
     [(''@context'', JArr [JStr ''https://www.w3.org/2018/credentials/v1'']),
      (''id'', JStr (''urn:uuid:'' @ uuid)),
      (''type'', JArr [JStr ''VerifiableCredential'', JStr credentialType]),
      (''issuer'', JStr issuerDid),
      (''issuanceDate'', JStr now),
      (''credentialSubject'', JObj (js_spread [(''id'', JStr subjectDid)] claims))]"

text \<open>Lines 64 to 70, the proof object.\<close>

definition proof_block :: "string \<Rightarrow> string \<Rightarrow> string \<Rightarrow> bytes \<Rightarrow> jsobject" where
  "proof_block proofType now issuerDid sigBytes =
     [(''type'', JStr proofType),
      (''created'', JStr now),
      (''verificationMethod'',
         JStr (issuerDid @ ''#'' @ js_nth_text (js_split (CHR '':'') issuerDid) 2)),
      (''proofPurpose'', JStr ''assertionMethod''),
      (''proofValue'', JStr (CHR ''z'' # base64_encode sigBytes))]"

text \<open>
  \<open>issueVerifiableCredential\<close>; the hexadecimal private key is \<open>issuerPrivateKey\<close>. An
  exception of a signing primitive leaves the function (\<open>Inl\<close>).
\<close>

definition issueVerifiableCredential ::
  "externals \<Rightarrow> string \<Rightarrow> string \<Rightarrow> string \<Rightarrow> string \<Rightarrow> string \<Rightarrow> jsobject \<Rightarrow> string \<Rightarrow> string
     \<Rightarrow> exn + jsobject" where
  "issueVerifiableCredential X now uuid issuerDid subjectDid credentialType claims
       issuerPrivateKey keyType =
     (let credential = unsigned_credential now uuid issuerDid subjectDid credentialType claims;
          message = utf8_json X (JObj credential);
          privateKeyBytes = hex_decode issuerPrivateKey;
          signed = (if keyType = ''ed25519''
                    then (signEd25519 X message privateKeyBytes, ''Ed25519Signature2020'')
                    else (signSecp256k1 X message privateKeyBytes,
                          ''EcdsaSecp256k1Signature2019''))
      in case signed of
           (Inl e, proofType) \<Rightarrow> Inl e
         | (Inr sigBytes, proofType) \<Rightarrow>
             Inr (js_put (js_spread [] credential) ''proof''
                    (JObj (proof_block proofType now issuerDid sigBytes))))"

subsection \<open>Verification\<close>

record VerificationResult =
  verified :: bool
  issuer :: jsval
  subject :: jsval
  issuanceDate :: jsval
  errors :: "string list option"

text \<open>The calls made to the verification primitives, with their arguments.\<close>

datatype primitive_call =
    Ed25519Verify bytes bytes bytes
  | Secp256k1Verify bytes bytes bytes

text \<open>Lines 128 to 138: the result once the signature branch has run.\<close>

definition conclude :: "jsobject \<Rightarrow> bool \<Rightarrow> string list \<Rightarrow> VerificationResult" where
  "conclude credential ok errors0 =
     (let errors1 = errors0 @ (if \<not> ok then [''Invalid signature''] else []) in
      \<lparr>verified = (ok \<and> length errors1 = 0),
       issuer = js_get (JObj credential) ''issuer'',
       subject = js_get (js_get (JObj credential) ''credentialSubject'') ''id'',
       issuanceDate = js_get (JObj credential) ''issuanceDate'',
       errors = (if length errors1 > 0 then Some errors1 else None)\<rparr>)"

text \<open>
  Lines 111 to 126, reached with a truthy \<open>proof.proofValue\<close>. Calling \<open>substring\<close> on
  a value that is not a string throws a \<open>TypeError\<close>; an exception of a primitive
  passes through. The second component lists the primitive calls made.
\<close>

definition check_signature ::
  "externals \<Rightarrow> jsobject \<Rightarrow> string \<Rightarrow> string
     \<Rightarrow> (exn + VerificationResult) \<times> primitive_call list" where
  "check_signature X credential issuerPublicKey keyType =
     (let proof = js_get (JObj credential) ''proof'';
          credentialWithoutProof = js_spread [] (filter (\<lambda>(k, v). k \<noteq> ''proof'') credential);
          message = utf8_json X (JObj credentialWithoutProof);
          publicKeyBytes = hex_decode issuerPublicKey
      in case js_get proof ''proofValue'' of
           JStr proofValue \<Rightarrow>
             (let signatureBytes = base64_decode (drop 1 proofValue) in
              if keyType = ''ed25519'' \<and> js_get proof ''type'' = JStr ''Ed25519Signature2020''
              then (case verifyEd25519 X signatureBytes message publicKeyBytes of
                      Inl e \<Rightarrow> (Inl e, [Ed25519Verify signatureBytes message publicKeyBytes])
                    | Inr ok \<Rightarrow> (Inr (conclude credential ok []),
                                 [Ed25519Verify signatureBytes message publicKeyBytes]))
              else if keyType = ''secp256k1''
                      \<and> js_get proof ''type'' = JStr ''EcdsaSecp256k1Signature2019''
              then (case verifySecp256k1 X signatureBytes message publicKeyBytes of
                      Inl e \<Rightarrow> (Inl e, [Secp256k1Verify signatureBytes message publicKeyBytes])
                    | Inr ok \<Rightarrow> (Inr (conclude credential ok []),
                                 [Secp256k1Verify signatureBytes message publicKeyBytes]))
              else (Inr (conclude credential False
                           [''Unsupported signature type or key mismatch'']), []))
         | _ \<Rightarrow> (Inl (Error ''proof.proofValue.substring is not a function''), []))"

text \<open>
  \<open>verifyVerifiableCredential\<close> with its \<open>try\<close>/\<open>catch\<close>, returning the result and the
  primitive calls made on the way.
\<close>

definition verify_traced ::
  "externals \<Rightarrow> jsobject \<Rightarrow> string \<Rightarrow> string \<Rightarrow> VerificationResult \<times> primitive_call list" where
  "verify_traced X credential issuerPublicKey keyType =
     (let c = JObj credential;
          errors0 =
            (if \<not> truthy (js_get c ''@context'') \<or> \<not> truthy (js_get c ''type'')
                \<or> \<not> truthy (js_get c ''issuer'') \<or> \<not> truthy (js_get c ''credentialSubject'')
             then [''Invalid credential structure''] else []);
          errors1 = errors0 @
            (if \<not> truthy (js_get c ''proof'')
                \<or> \<not> truthy (js_get (js_get c ''proof'') ''proofValue'')
             then [''Missing or invalid proof''] else [])
      in if length errors1 > 0
         then (\<lparr>verified = False,
                issuer = js_or (js_get c ''issuer'') (JStr ''''),
                subject = js_or (js_get (js_get c ''credentialSubject'') ''id'') (JStr ''''),
                issuanceDate = js_or (js_get c ''issuanceDate'') (JStr ''''),
                errors = Some errors1\<rparr>, [])
         else (case check_signature X credential issuerPublicKey keyType of
                 (Inr r, calls) \<Rightarrow> (r, calls)
               | (Inl e, calls) \<Rightarrow>
                   (\<lparr>verified = False,
                     issuer = js_or (js_get c ''issuer'') (JStr ''''),
                     subject = js_or (js_get (js_get c ''credentialSubject'') ''id'') (JStr ''''),
                     issuanceDate = js_or (js_get c ''issuanceDate'') (JStr ''''),
                     errors = Some [''Verification failed: ''
                                      @ (case e of Error m \<Rightarrow> m | Thrown \<Rightarrow> ''Unknown error'')]\<rparr>,
                    calls)))"

definition verifyVerifiableCredential ::
  "externals \<Rightarrow> jsobject \<Rightarrow> string \<Rightarrow> string \<Rightarrow> VerificationResult" where
  "verifyVerifiableCredential X credential issuerPublicKey keyType =
     fst (verify_traced X credential issuerPublicKey keyType)"

definition signature_checks ::
  "externals \<Rightarrow> jsobject \<Rightarrow> string \<Rightarrow> string \<Rightarrow> primitive_call list" where
  "signature_checks X credential issuerPublicKey keyType =
     snd (verify_traced X credential issuerPublicKey keyType)"

subsection \<open>The conditions verification tests, by name\<close>

text \<open>Line 93, line 97, and the two accepting conditions of lines 120 and 122.\<close>

definition structure_ok :: "jsobject \<Rightarrow> bool" where
  "structure_ok credential \<longleftrightarrow>
     truthy (js_get (JObj credential) ''@context'') \<and> truthy (js_get (JObj credential) ''type'')
       \<and> truthy (js_get (JObj credential) ''issuer'')
       \<and> truthy (js_get (JObj credential) ''credentialSubject'')"

definition proof_present :: "jsobject \<Rightarrow> bool" where
  "proof_present credential \<longleftrightarrow>
     truthy (js_get (JObj credential) ''proof'')
       \<and> truthy (js_get (js_get (JObj credential) ''proof'') ''proofValue'')"

definition scheme_matches :: "string \<Rightarrow> jsobject \<Rightarrow> bool" where
  "scheme_matches keyType credential \<longleftrightarrow>
     keyType = ''ed25519''
       \<and> js_get (js_get (JObj credential) ''proof'') ''type'' = JStr ''Ed25519Signature2020''
     \<or> keyType = ''secp256k1''
       \<and> js_get (js_get (JObj credential) ''proof'') ''type''
           = JStr ''EcdsaSecp256k1Signature2019''"

subsection \<open>The round trip of the library's primitives\<close>

text \<open>
  A signature that \<open>sign\<close> returns for a message and a private key is accepted by
  \<open>verify\<close> for that message and the public key of that private key (for secp256k1,
  in its compact encoding). This is a property of the library, not of the repository.
\<close>

definition primitives_sound :: "externals \<Rightarrow> bool" where
  "primitives_sound X \<longleftrightarrow>
     (\<forall>m sk sg. ed25519_sign X m sk = Inr sg
        \<longrightarrow> ed25519_verify X sg m (ed25519_getPublicKey X sk) = Inr True)
     \<and> (\<forall>m sk sg. secp256k1_sign X m sk = Inr sg
        \<longrightarrow> secp256k1_verify X (toCompactRawBytes sg) m (secp256k1_getPublicKey X sk)
              = Inr True)"

section \<open>A small instance of the externals\<close>

text \<open>
  An instance on which the services can be run: a keyed checksum in place of the
  curves (the public key is the private key), and a serializer that writes the keys
  and the string values of an object. It validates its inputs as the library does.
  Signing throws unless the private key has 32 bytes and, for secp256k1, is a number
  between 1 and the group order. The Ed25519 verification throws on a signature that
  is not 64 bytes long or a public key that is not 32 bytes long; the secp256k1
  verification returns \<open>false\<close> on malformed input. The secp256k1 functions read the
  first 32 bytes of the message only.
\<close>

definition text_bytes :: "string \<Rightarrow> bytes" where
  "text_bytes s = map (\<lambda>c. of_nat (of_char c)) s"

definition tag64 :: "bytes \<Rightarrow> bytes \<Rightarrow> bytes" where
  "tag64 key message = take 64 (key @ message @ replicate 64 0)"

definition checksum :: "bytes \<Rightarrow> nat" where
  "checksum bs = sum_list (map unat bs) mod 256"

definition secp256k1_order :: nat where
  "secp256k1_order = 0xFFFFFFFFFFFFFFFFFFFFFFFFFFFFFFFEBAAEDCE6AF48A03BBFD25E8CD0364141"

definition valid_scalar :: "bytes \<Rightarrow> bool" where
  "valid_scalar sk \<longleftrightarrow>
     length sk = 32 \<and> 0 < nat_of_bytes sk \<and> nat_of_bytes sk < secp256k1_order"

definition sample_ecdsa :: "bytes \<Rightarrow> bytes \<Rightarrow> ecdsa_signature" where
  "sample_ecdsa key message =
     Signature (1 + checksum key) (1 + checksum (key @ take 32 message))"

definition sample_externals :: externals where
  "sample_externals =
     \<lparr>ed25519_getPublicKey = (\<lambda>sk. sk),
      ed25519_sign = (\<lambda>m sk. if length sk \<noteq> 32
                                then Inl (Error ''private key expected 32 bytes'')
                              else Inr (tag64 sk m)),
      ed25519_verify = (\<lambda>sg m pk. if length sg \<noteq> 64
                                     then Inl (Error ''signature expected 64 bytes'')
                                   else if length pk \<noteq> 32
                                     then Inl (Error ''publicKey expected 32 bytes'')
                                   else Inr (sg = tag64 pk m)),
      secp256k1_getPublicKey = (\<lambda>sk. sk),
      secp256k1_sign = (\<lambda>m sk. if \<not> valid_scalar sk
                                  then Inl (Error ''invalid private key'')
                                else Inr (sample_ecdsa sk m)),
      secp256k1_verify = (\<lambda>sg m pk. Inr (valid_scalar pk
                                            \<and> sg = toCompactRawBytes (sample_ecdsa pk m))),
      utf8_json = (\<lambda>v. case v of
                      JObj kvs \<Rightarrow>
                        concat (map (\<lambda>(k, x). text_bytes k
                                     @ (case x of JStr s \<Rightarrow> text_bytes s | _ \<Rightarrow> [])) kvs)
                    | JStr s \<Rightarrow> text_bytes s
                    | _ \<Rightarrow> [])\<rparr>"

text \<open>A private key that both schemes accept: 32 bytes, each \<open>0x0a\<close>.\<close>

definition sample_key :: bytes where
  "sample_key = replicate 32 0x0a"

section \<open>Properties of the encodings\<close>

subsection \<open>Hexadecimal and base64 decoding invert the encodings\<close>

lemma hex_val_digit: "n < 16 \<Longrightarrow> hex_val (hex_digits ! n) = Some n"
proof -
  assume "n < 16"
  then have "n \<in> set [0..<16]" by simp
  then have "n \<in> {0,1,2,3,4,5,6,7,8,9,10,11,12,13,14,15}"
    by (simp add: upt_rec numeral_eq_Suc insert_commute)
  then show ?thesis
    by (auto simp: hex_val_def hex_digits_def)
qed

lemma unat_byte: "unat (b :: byte) < 256"
  using unsigned_less [of b, where ?'a = nat] by simp

lemma hex_decode_byte: "hex_decode (hex_byte b @ s) = b # hex_decode s"
proof -
  have "unat b < 256" by (rule unat_byte)
  then have d: "unat b div 16 < 16" and m: "unat b mod 16 < 16" by auto
  have "16 * (unat b div 16) + unat b mod 16 = unat b" by simp
  then show ?thesis
    by (simp add: hex_byte_def hex_val_digit [OF d] hex_val_digit [OF m])
qed

lemma hex_decode_encode: "hex_decode (hex_encode bs) = bs"
  by (induction bs) (simp_all add: hex_encode_def hex_decode_byte)

lemma char_index_nth:
  assumes "distinct alphabet" "i < length alphabet"
  shows "char_index alphabet (alphabet ! i) = Some i"
  unfolding char_index_def using assms
  by (simp add: map_of_zip_nth)

lemma distinct_b64: "distinct b64_alphabet"
  by (simp add: b64_alphabet_def)

lemma length_b64: "length b64_alphabet = 64"
  by (simp add: b64_alphabet_def)

lemma b64_char_in: "i < 64 \<Longrightarrow> b64_char i \<in> set b64_alphabet"
  by (simp add: b64_char_def length_b64)

lemma b64_val_char: "i < 64 \<Longrightarrow> b64_val (b64_char i) = Some i"
proof -
  assume i: "i < 64"
  have "CHR ''-'' \<notin> set b64_alphabet" "CHR ''_'' \<notin> set b64_alphabet"
    by (simp_all add: b64_alphabet_def)
  with b64_char_in [OF i] have "b64_char i \<noteq> CHR ''-''" "b64_char i \<noteq> CHR ''_''" by auto
  then show ?thesis
    using i by (simp add: b64_val_def b64_char_def char_index_nth distinct_b64 length_b64)
qed

lemma b64_char_not_pad: "i < 64 \<Longrightarrow> b64_char i \<noteq> CHR ''=''"
proof -
  assume i: "i < 64"
  have "CHR ''='' \<notin> set b64_alphabet" by (simp add: b64_alphabet_def)
  with b64_char_in [OF i] show ?thesis by auto
qed

lemma b64_sextets_char: "i < 64 \<Longrightarrow> b64_sextets (b64_char i # s) = i # b64_sextets s"
  by (simp add: b64_sextets_def b64_char_not_pad b64_val_char List.map_filter_simps)

lemma b64_sextets_pad: "b64_sextets (CHR ''='' # s) = []"
  by (simp add: b64_sextets_def List.map_filter_simps)

lemma b64_sextets_Nil: "b64_sextets [] = []"
  by (simp add: b64_sextets_def List.map_filter_simps)

lemma of_nat_unat_byte: "of_nat (unat (b :: byte)) = b"
  by simp

lemma sextet_step: "(n::nat) div (k * 64) * 64 + n div k mod 64 = n div k"
  by (simp add: div_mult2_eq)

lemma bytes3_div:
  assumes "b < 256" "c < (256::nat)"
  shows "(a * 65536 + b * 256 + c) div 65536 = a"
    and "(a * 65536 + b * 256 + c) div 256 mod 256 = b"
    and "(a * 65536 + b * 256 + c) mod 256 = c"
proof -
  have e: "a * 65536 + b * 256 + c = (a * 256 + b) * 256 + c" by simp
  have d: "(a * 65536 + b * 256 + c) div 256 = a * 256 + b"
    unfolding e using assms by simp
  show "(a * 65536 + b * 256 + c) div 256 mod 256 = b"
    unfolding d using assms by simp
  have "(a * 65536 + b * 256 + c) div 65536 = (a * 65536 + b * 256 + c) div 256 div 256"
    by (simp add: div_mult2_eq)
  then show "(a * 65536 + b * 256 + c) div 65536 = a"
    unfolding d using assms by simp
  have "((a * 256 + b) * 256 + c) mod 256 = c mod 256" by (rule mod_mult_self3)
  then have "((a * 256 + b) * 256 + c) mod 256 = c" using assms by (simp only: mod_less)
  then show "(a * 65536 + b * 256 + c) mod 256 = c"
    by (simp only: e)
qed

lemma b64_quad:
  fixes a b c :: byte
  defines "n \<equiv> unat a * 65536 + unat b * 256 + unat c"
  shows "b64_groups (n div 262144 # n div 4096 mod 64 # n div 64 mod 64 # n mod 64 # rest)
           = a # b # c # b64_groups rest"
proof -
  have lb: "unat b < 256" and lc: "unat c < 256" by (rule unat_byte)+
  have "n div 262144 * 64 + n div 4096 mod 64 = n div 4096"
    using sextet_step [of n 4096] by simp
  moreover have "n div 4096 * 64 + n div 64 mod 64 = n div 64"
    using sextet_step [of n 64] by simp
  ultimately have re:
    "((n div 262144 * 64 + n div 4096 mod 64) * 64 + n div 64 mod 64) * 64 + n mod 64 = n"
    by simp
  have b1: "n div 65536 = unat a" and b2: "n div 256 mod 256 = unat b"
    and b3: "n mod 256 = unat c"
    unfolding n_def using bytes3_div [OF lb lc] by blast+
  show ?thesis
    by (simp only: b64_groups.simps Let_def re b1 b2 b3 of_nat_unat_byte append.simps)
qed

lemma b64_triple:
  fixes a b :: byte
  defines "n \<equiv> (unat a * 256 + unat b) * 4"
  shows "b64_groups [n div 4096, n div 64 mod 64, n mod 64] = [a, b]"
proof -
  have lb: "unat b < 256" by (rule unat_byte)
  have "n div 4096 * 64 + n div 64 mod 64 = n div 64"
    using sextet_step [of n 64] by simp
  then have re: "(n div 4096 * 64 + n div 64 mod 64) * 64 + n mod 64 = n"
    by simp
  have d4: "n div 4 = unat a * 256 + unat b" by (simp add: n_def)
  have "n div 1024 = n div 4 div 256" by (simp add: div_mult2_eq)
  then have b1: "n div 1024 = unat a" unfolding d4 using lb by simp
  have b2: "n div 4 mod 256 = unat b" unfolding d4 using lb by simp
  show ?thesis
    by (simp only: b64_groups.simps Let_def re b1 b2 of_nat_unat_byte)
qed

lemma b64_pair:
  fixes a :: byte
  defines "n \<equiv> unat a * 16"
  shows "b64_groups [n div 64, n mod 64] = [a]"
proof -
  have re: "n div 64 * 64 + n mod 64 = n" by simp
  have b1: "n div 16 = unat a" by (simp add: n_def)
  show ?thesis
    by (simp only: b64_groups.simps re b1 of_nat_unat_byte)
qed

lemma base64_decode_encode: "base64_decode (base64_encode bs) = bs"
proof (induction bs rule: base64_encode.induct)
  case (1 a b c rest)
  define n where "n = unat a * 65536 + unat b * 256 + unat c"
  have "n < 16777216"
    using unat_byte [of a] unat_byte [of b] unat_byte [of c] by (simp add: n_def)
  then have s1: "n div 262144 < 64" by simp
  from 1 have IH: "b64_groups (b64_sextets (base64_encode rest)) = rest"
    by (simp add: base64_decode_def)
  have "b64_sextets (base64_encode (a # b # c # rest))
          = n div 262144 # n div 4096 mod 64 # n div 64 mod 64 # n mod 64
              # b64_sextets (base64_encode rest)"
    unfolding base64_encode.simps Let_def n_def [symmetric]
    by (simp add: b64_sextets_char s1)
  then show ?case
    unfolding base64_decode_def n_def by (simp only: b64_quad IH)
next
  case (2 a b)
  define n where "n = (unat a * 256 + unat b) * 4"
  have "n < 262144" using unat_byte [of a] unat_byte [of b] by (simp add: n_def)
  then have s1: "n div 4096 < 64" by simp
  have "b64_sextets (base64_encode [a, b]) = [n div 4096, n div 64 mod 64, n mod 64]"
    unfolding base64_encode.simps Let_def n_def [symmetric]
    by (simp add: b64_sextets_char b64_sextets_pad s1)
  then show ?case
    unfolding base64_decode_def n_def by (simp only: b64_triple)
next
  case (3 a)
  define n where "n = unat a * 16"
  have "n < 4096" using unat_byte [of a] by (simp add: n_def)
  then have s1: "n div 64 < 64" by simp
  have "b64_sextets (base64_encode [a]) = [n div 64, n mod 64]"
    unfolding base64_encode.simps Let_def n_def [symmetric]
    by (simp add: b64_sextets_char b64_sextets_pad s1)
  then show ?case
    unfolding base64_decode_def n_def by (simp only: b64_pair)
next
  case 4
  show ?case by (simp add: base64_decode_def b64_sextets_Nil)
qed


subsection \<open>Base58 decoding inverts the encoding\<close>

lemma digits58_0: "digits58 0 = []"
  by (subst digits58.simps) simp

lemma digits58_pos: "0 < n \<Longrightarrow> digits58 n = digits58 (n div 58) @ [n mod 58]"
  by (subst digits58.simps) simp

lemma digits58_Nil_iff: "digits58 n = [] \<longleftrightarrow> n = 0"
proof (cases "n = 0")
  case True
  then show ?thesis by (simp add: digits58_0)
next
  case False
  then have "0 < n" by simp
  from digits58_pos [OF this] False show ?thesis by simp
qed

lemma digits58_bound: "\<forall>d \<in> set (digits58 n). d < 58"
proof (induction n rule: less_induct)
  case (less n)
  show ?case
  proof (cases "n = 0")
    case True
    then show ?thesis by (simp add: digits58_0)
  next
    case False
    then have p: "0 < n" and "n div 58 < n" by simp_all
    from less [OF this(2)] show ?thesis
      unfolding digits58_pos [OF p] by simp
  qed
qed

lemma digits58_hd: "0 < n \<Longrightarrow> hd (digits58 n) \<noteq> 0"
proof (induction n rule: less_induct)
  case (less n)
  show ?case
  proof (cases "n div 58 = 0")
    case True
    then have "n < 58" by (simp add: div_eq_0_iff)
    with less.prems have "n mod 58 \<noteq> 0" by simp
    then show ?thesis
      unfolding digits58_pos [OF less.prems] True digits58_0 by simp
  next
    case False
    then have p: "0 < n div 58" by simp
    have "n div 58 < n" using less.prems by simp
    from less.IH [OF this p] have "hd (digits58 (n div 58)) \<noteq> 0" .
    moreover have "digits58 (n div 58) \<noteq> []" using p by (simp add: digits58_Nil_iff)
    ultimately show ?thesis
      unfolding digits58_pos [OF less.prems] by simp
  qed
qed

lemma digits58_value: "foldl (\<lambda>acc d. acc * 58 + d) 0 (digits58 n) = n"
proof (induction n rule: less_induct)
  case (less n)
  show ?case
  proof (cases "n = 0")
    case True
    then show ?thesis by (simp add: digits58_0)
  next
    case False
    then have p: "0 < n" and "n div 58 < n" by simp_all
    from less [OF this(2)] show ?thesis
      unfolding digits58_pos [OF p] by simp
  qed
qed

lemma bytes_of_nat_0: "bytes_of_nat 0 = []"
  by (subst bytes_of_nat.simps) simp

lemma bytes_of_nat_pos: "0 < n \<Longrightarrow> bytes_of_nat n = bytes_of_nat (n div 256) @ [of_nat (n mod 256)]"
  by (subst bytes_of_nat.simps) simp

lemma nat_of_bytes_snoc: "nat_of_bytes (bs @ [b]) = nat_of_bytes bs * 256 + unat b"
  by (simp add: nat_of_bytes_def)

lemma bytes_of_nat_of_bytes: "bytes_of_nat (nat_of_bytes bs) = dropWhile (\<lambda>b. b = 0) bs"
proof (induction bs rule: rev_induct)
  case Nil
  show ?case by (simp add: nat_of_bytes_def bytes_of_nat_0)
next
  case (snoc b bs)
  have ub: "unat b < 256" by (rule unat_byte)
  show ?case
  proof (cases "nat_of_bytes bs = 0")
    case True
    with snoc have "dropWhile (\<lambda>b. b = 0) bs = []" by (simp add: bytes_of_nat_0)
    then have z: "\<forall>x \<in> set bs. x = 0" by (simp add: dropWhile_eq_Nil_conv)
    show ?thesis
    proof (cases "b = 0")
      case True
      with z \<open>nat_of_bytes bs = 0\<close> show ?thesis
        by (simp add: nat_of_bytes_snoc bytes_of_nat_0 dropWhile_eq_Nil_conv)
    next
      case False
      then have "0 < unat b" by (simp add: unat_gt_0)
      with z False True ub show ?thesis
        by (simp add: nat_of_bytes_snoc bytes_of_nat_pos bytes_of_nat_0 dropWhile_append)
    qed
  next
    case False
    then have "bytes_of_nat (nat_of_bytes bs) \<noteq> []" by (simp add: bytes_of_nat_pos)
    with snoc have "dropWhile (\<lambda>b. b = 0) bs \<noteq> []" by simp
    then obtain x where "x \<in> set bs" "x \<noteq> 0" by (auto simp: dropWhile_eq_Nil_conv)
    then have d: "dropWhile (\<lambda>b. b = 0) (bs @ [b]) = dropWhile (\<lambda>b. b = 0) bs @ [b]"
      by (simp add: dropWhile_append1)
    have dv: "(nat_of_bytes bs * 256 + unat b) div 256 = nat_of_bytes bs" using ub by simp
    have md: "(nat_of_bytes bs * 256 + unat b) mod 256 = unat b" using ub by simp
    have "0 < nat_of_bytes bs * 256 + unat b" using False by simp
    from bytes_of_nat_pos [OF this] show ?thesis
      unfolding nat_of_bytes_snoc dv md d snoc by simp
  qed
qed

lemma distinct_b58: "distinct b58_alphabet"
  by (simp add: b58_alphabet_def)

lemma length_b58: "length b58_alphabet = 58"
  by (simp add: b58_alphabet_def)

lemma b58_index: "d < 58 \<Longrightarrow> char_index b58_alphabet (b58_alphabet ! d) = Some d"
  by (simp add: char_index_nth distinct_b58 length_b58)

lemma b58_zero: "b58_alphabet ! 0 = CHR ''1''"
  by (simp add: b58_alphabet_def)

lemma b58_one_iff: "d < 58 \<Longrightarrow> b58_alphabet ! d = CHR ''1'' \<longleftrightarrow> d = 0"
  using distinct_b58 length_b58 b58_zero
  by (metis nth_eq_iff_index_eq zero_less_numeral)

lemma b58_value_digits:
  assumes "\<forall>d \<in> set ds. d < 58"
  shows "foldl (\<lambda>acc c. acc * 58 + the (char_index b58_alphabet c)) a
           (map (\<lambda>d. b58_alphabet ! d) ds)
         = foldl (\<lambda>acc d. acc * 58 + d) a ds"
  using assms by (induction ds arbitrary: a) (simp_all add: b58_index)

lemma b58_value_ones:
  "foldl (\<lambda>acc c. acc * 58 + the (char_index b58_alphabet c)) 0 (replicate z (CHR ''1'') @ s)
     = foldl (\<lambda>acc c. acc * 58 + the (char_index b58_alphabet c)) 0 s"
proof (induction z)
  case 0
  show ?case by simp
next
  case (Suc z)
  have "char_index b58_alphabet (CHR ''1'') = Some 0"
    using b58_index [of 0] by (simp add: b58_zero)
  with Suc show ?case by simp
qed

lemma takeWhile_ones:
  assumes "ds = [] \<or> hd ds \<noteq> 0" "\<forall>d \<in> set ds. d < 58"
  shows "takeWhile (\<lambda>c. c = CHR ''1'') (replicate z (CHR ''1'') @ map (\<lambda>d. b58_alphabet ! d) ds)
           = replicate z (CHR ''1'')"
proof -
  have "takeWhile (\<lambda>c. c = CHR ''1'') (map (\<lambda>d. b58_alphabet ! d) ds) = []"
  proof (cases ds)
    case Nil
    then show ?thesis by simp
  next
    case (Cons d ds')
    with assms have "d \<noteq> 0" "d < 58" by auto
    then have "b58_alphabet ! d \<noteq> CHR ''1''" by (simp add: b58_one_iff)
    with Cons show ?thesis by simp
  qed
  then show ?thesis by (induction z) simp_all
qed

lemma leading_zeros: "replicate (length (takeWhile (\<lambda>b. b = 0) bs)) 0 = takeWhile (\<lambda>b. b = (0::byte)) bs"
  by (induction bs) simp_all

lemma base58_decode_encode: "base58_decode (base58_encode bs) = Some bs"
proof -
  define z where "z = length (takeWhile (\<lambda>b. b = 0) bs)"
  define ds where "ds = digits58 (nat_of_bytes bs)"
  have bound: "\<forall>d \<in> set ds. d < 58" unfolding ds_def by (rule digits58_bound)
  have hd: "ds = [] \<or> hd ds \<noteq> 0"
    unfolding ds_def using digits58_hd [of "nat_of_bytes bs"] digits58_0
    by (cases "nat_of_bytes bs = 0") simp_all
  have enc: "base58_encode bs = replicate z (CHR ''1'') @ map (\<lambda>d. b58_alphabet ! d) ds"
    by (simp add: base58_encode_def z_def ds_def)
  have "char_index b58_alphabet (CHR ''1'') = Some 0"
    using b58_index [of 0] by (simp add: b58_zero)
  then have valid: "list_all (\<lambda>c. char_index b58_alphabet c \<noteq> None) (base58_encode bs)"
    unfolding enc using bound by (auto simp: list_all_iff b58_index)
  have val: "foldl (\<lambda>acc c. acc * 58 + the (char_index b58_alphabet c)) 0 (base58_encode bs)
               = nat_of_bytes bs"
    unfolding enc b58_value_ones b58_value_digits [OF bound]
    by (simp add: ds_def digits58_value)
  have ones: "length (takeWhile (\<lambda>c. c = CHR ''1'') (base58_encode bs)) = z"
    unfolding enc takeWhile_ones [OF hd bound] by simp
  have "replicate z 0 @ bytes_of_nat (nat_of_bytes bs) = bs"
    unfolding z_def leading_zeros bytes_of_nat_of_bytes by simp
  then show ?thesis
    unfolding base58_decode_def using valid by (simp add: val ones)
qed

lemma base58_test_vector2:
  "base58_encode [0x00, 0x00, 0x28, 0x7f, 0xb4, 0xcd] = ''11233QC4''"
  by (simp add: base58_encode_def nat_of_bytes_def digits58.simps b58_alphabet_def)

lemma base58_test_vector1:
  "base58_encode (text_bytes ''Hello World!'') = ''2NEpo7TZRRrLZSi2U''"
  by (simp add: base58_encode_def nat_of_bytes_def digits58.simps b58_alphabet_def text_bytes_def)

section \<open>Objects\<close>

lemma map_of_replace_other:
  "x \<noteq> k \<Longrightarrow>
   map_of (map (\<lambda>(k', v'). if k' = k then (k', v) else (k', v')) obj) x = map_of obj x"
  by (induction obj) auto

lemma map_of_replace_same:
  "k \<in> set (map fst obj) \<Longrightarrow>
   map_of (map (\<lambda>(k', v'). if k' = k then (k', v) else (k', v')) obj) k = Some v"
  by (induction obj) auto

lemma map_of_replace:
  "k \<in> set (map fst obj) \<Longrightarrow>
   map_of (map (\<lambda>(k', v'). if k' = k then (k', v) else (k', v')) obj) = (map_of obj)(k \<mapsto> v)"
  by (simp add: fun_eq_iff map_of_replace_other map_of_replace_same)

lemma map_of_snoc:
  assumes "k \<notin> set (map fst obj)"
  shows "map_of (obj @ [(k, v)]) = (map_of obj)(k \<mapsto> v)"
proof -
  have "map_of obj k = None" using assms by (simp add: map_of_eq_None_iff)
  then show ?thesis
    by (auto simp: fun_eq_iff map_add_def split: option.splits)
qed

lemma map_of_insert:
  assumes "k \<notin> set (map fst obj)"
  shows "map_of (takeWhile P obj @ [(k, v)] @ dropWhile P obj) = (map_of obj)(k \<mapsto> v)"
proof -
  have "map_of obj = map_of (takeWhile P obj @ dropWhile P obj)" by simp
  also have "\<dots> = map_of (dropWhile P obj) ++ map_of (takeWhile P obj)"
    by (simp only: map_of_append)
  finally have split: "map_of obj = map_of (dropWhile P obj) ++ map_of (takeWhile P obj)" .
  have "k \<notin> set (map fst (takeWhile P obj))"
    using assms by (auto dest: set_takeWhileD)
  then have none: "map_of (takeWhile P obj) k = None"
    by (simp add: map_of_eq_None_iff)
  show ?thesis
    unfolding split using none
    by (auto simp: fun_eq_iff map_add_def split: option.splits)
qed

lemma map_of_js_put: "map_of (js_put obj k v) = (map_of obj)(k \<mapsto> v)"
  unfolding js_put_def
  by (simp add: map_of_replace map_of_insert map_of_snoc del: append.simps map_of_append)

lemma map_of_js_spread:
  "map_of (js_spread target source) = map_of target ++ map_of (rev source)"
  unfolding js_spread_def
proof (induction source arbitrary: target)
  case Nil
  show ?case by simp
next
  case (Cons p source)
  obtain k v where p: "p = (k, v)" by (cases p)
  show ?case
    by (simp add: p Cons map_of_js_put fun_eq_iff map_add_def split: option.splits)
qed

lemma map_of_rev_distinct:
  assumes "distinct (map fst xs)"
  shows "map_of (rev xs) = map_of xs"
proof
  fix x
  have d: "distinct (map fst (rev xs))" using assms by (simp add: rev_map [symmetric])
  show "map_of (rev xs) x = map_of xs x"
  proof (cases "map_of xs x")
    case None
    then have "x \<notin> fst ` set (rev xs)" by (simp add: map_of_eq_None_iff)
    then have "map_of (rev xs) x = None"
      using map_of_eq_None_iff [of "rev xs" x] by blast
    then show ?thesis using None by simp
  next
    case (Some y)
    then have "(x, y) \<in> set (rev xs)" using assms by simp
    then show ?thesis using Some d by simp
  qed
qed

lemma non_index_keys:
  "\<not> is_index_key ''@context''" "\<not> is_index_key ''id''" "\<not> is_index_key ''type''"
  "\<not> is_index_key ''issuer''" "\<not> is_index_key ''issuanceDate''"
  "\<not> is_index_key ''credentialSubject''" "\<not> is_index_key ''proof''"
  by (simp_all add: is_index_key_def is_digit_def)

lemma copy_credential:
  "js_spread [] [(''@context'', a), (''id'', b), (''type'', c), (''issuer'', d),
                 (''issuanceDate'', e), (''credentialSubject'', f)]
     = [(''@context'', a), (''id'', b), (''type'', c), (''issuer'', d),
        (''issuanceDate'', e), (''credentialSubject'', f)]"
  by (simp add: js_spread_def js_put_def non_index_keys)

lemma attach_proof:
  "js_put [(''@context'', a), (''id'', b), (''type'', c), (''issuer'', d),
           (''issuanceDate'', e), (''credentialSubject'', f)] ''proof'' p
     = [(''@context'', a), (''id'', b), (''type'', c), (''issuer'', d),
        (''issuanceDate'', e), (''credentialSubject'', f), (''proof'', p)]"
  by (simp add: js_put_def non_index_keys)

lemma strip_proof:
  "js_spread [] (filter (\<lambda>(k, v). k \<noteq> ''proof'')
       [(''@context'', a), (''id'', b), (''type'', c), (''issuer'', d),
        (''issuanceDate'', e), (''credentialSubject'', f), (''proof'', p)])
     = [(''@context'', a), (''id'', b), (''type'', c), (''issuer'', d),
        (''issuanceDate'', e), (''credentialSubject'', f)]"
  by (simp add: copy_credential)

section \<open>The sample key\<close>

lemma sample_key_list:
  "sample_key = [10, 10, 10, 10, 10, 10, 10, 10, 10, 10, 10, 10, 10, 10, 10, 10,
                 10, 10, 10, 10, 10, 10, 10, 10, 10, 10, 10, 10, 10, 10, 10, 10]"
  by (simp add: sample_key_def numeral_eq_Suc)

lemma length_sample_key: "length sample_key = 32"
  by (simp add: sample_key_def)

lemma sample_key_hex:
  "hex_decode ''0a0a0a0a0a0a0a0a0a0a0a0a0a0a0a0a0a0a0a0a0a0a0a0a0a0a0a0a0a0a0a0a'' = sample_key"
  by (simp add: sample_key_list hex_val_def)

lemma valid_sample_key: "valid_scalar sample_key"
  by (simp add: valid_scalar_def length_sample_key secp256k1_order_def)
     (simp add: sample_key_list nat_of_bytes_def)


section \<open>Verification results\<close>

text \<open>
  C9. For every credential object, issuer key and key type, the result of
  \<open>verifyVerifiableCredential\<close> has \<open>verified = true\<close> exactly when it carries no
  \<open>errors\<close> field, and whenever \<open>verified\<close> is false the \<open>errors\<close> list is present
  and not empty.
\<close>

theorem verified_iff_no_errors:
  "(verified (verifyVerifiableCredential X credential issuerPublicKey keyType)
      \<longleftrightarrow> errors (verifyVerifiableCredential X credential issuerPublicKey keyType) = None)
   \<and> (\<not> verified (verifyVerifiableCredential X credential issuerPublicKey keyType)
        \<longrightarrow> (\<exists>es. errors (verifyVerifiableCredential X credential issuerPublicKey keyType) = Some es
                  \<and> es \<noteq> []))"
  by (auto simp: verifyVerifiableCredential_def verify_traced_def check_signature_def
        conclude_def Let_def
      split: jsval.splits sum.splits prod.splits if_splits)

theorem verified_iff_no_errors_witness:
  "\<not> verified (verifyVerifiableCredential sample_externals
        [(''issuer'', JStr ''did:key:z6Mk'')] ''00'' ''ed25519'')
   \<and> (\<exists>es. errors (verifyVerifiableCredential sample_externals
        [(''issuer'', JStr ''did:key:z6Mk'')] ''00'' ''ed25519'') = Some es \<and> es \<noteq> [])"
proof -
  have "\<not> verified (verifyVerifiableCredential sample_externals
        [(''issuer'', JStr ''did:key:z6Mk'')] ''00'' ''ed25519'')"
    by (simp add: verifyVerifiableCredential_def verify_traced_def Let_def)
  then show ?thesis
    using verified_iff_no_errors [of sample_externals
        "[(''issuer'', JStr ''did:key:z6Mk'')]" "''00''" "''ed25519''"]
    by blast
qed


text \<open>
  C7. A credential whose \<open>proof\<close> is absent (or otherwise falsy) or whose
  \<open>proof.proofValue\<close> is empty (or otherwise falsy) is not verified, the error list
  contains \<open>Missing or invalid proof\<close>, and the result still carries the \<open>issuer\<close>,
  \<open>credentialSubject.id\<close> and \<open>issuanceDate\<close> of the input, each replaced by the
  empty string when it is missing.
\<close>

theorem missing_proof_reported:
  assumes "\<not> truthy (js_get (JObj credential) ''proof'')
           \<or> \<not> truthy (js_get (js_get (JObj credential) ''proof'') ''proofValue'')"
  shows "\<not> verified (verifyVerifiableCredential X credential issuerPublicKey keyType)
    \<and> (\<exists>es. errors (verifyVerifiableCredential X credential issuerPublicKey keyType) = Some es
           \<and> ''Missing or invalid proof'' \<in> set es)
    \<and> issuer (verifyVerifiableCredential X credential issuerPublicKey keyType)
        = js_or (js_get (JObj credential) ''issuer'') (JStr '''')
    \<and> subject (verifyVerifiableCredential X credential issuerPublicKey keyType)
        = js_or (js_get (js_get (JObj credential) ''credentialSubject'') ''id'') (JStr '''')
    \<and> issuanceDate (verifyVerifiableCredential X credential issuerPublicKey keyType)
        = js_or (js_get (JObj credential) ''issuanceDate'') (JStr '''')"
  using assms
  by (auto simp: verifyVerifiableCredential_def verify_traced_def Let_def)

theorem missing_proof_reported_witness:
  "\<not> verified (verifyVerifiableCredential sample_externals
        [(''issuer'', JStr ''did:key:z6Mk''),
         (''credentialSubject'', JObj [(''id'', JStr ''did:key:z6Mh'')]),
         (''issuanceDate'', JStr ''2025-06-19T00:00:00.000Z''),
         (''proof'', JObj [(''type'', JStr ''Ed25519Signature2020''), (''proofValue'', JStr '''')])]
        ''00'' ''ed25519'')
   \<and> issuer (verifyVerifiableCredential sample_externals
        [(''issuer'', JStr ''did:key:z6Mk''),
         (''credentialSubject'', JObj [(''id'', JStr ''did:key:z6Mh'')]),
         (''issuanceDate'', JStr ''2025-06-19T00:00:00.000Z''),
         (''proof'', JObj [(''type'', JStr ''Ed25519Signature2020''), (''proofValue'', JStr '''')])]
        ''00'' ''ed25519'') = JStr ''did:key:z6Mk''
   \<and> subject (verifyVerifiableCredential sample_externals
        [(''issuer'', JStr ''did:key:z6Mk''),
         (''credentialSubject'', JObj [(''id'', JStr ''did:key:z6Mh'')]),
         (''issuanceDate'', JStr ''2025-06-19T00:00:00.000Z''),
         (''proof'', JObj [(''type'', JStr ''Ed25519Signature2020''), (''proofValue'', JStr '''')])]
        ''00'' ''ed25519'') = JStr ''did:key:z6Mh''"
  using missing_proof_reported [of
        "[(''issuer'', JStr ''did:key:z6Mk''),
         (''credentialSubject'', JObj [(''id'', JStr ''did:key:z6Mh'')]),
         (''issuanceDate'', JStr ''2025-06-19T00:00:00.000Z''),
         (''proof'', JObj [(''type'', JStr ''Ed25519Signature2020''), (''proofValue'', JStr '''')])]"
        sample_externals "''00''" "''ed25519''"]
  by (simp add: js_or_def)


section \<open>Issued credentials\<close>

lemma issued_shape:
  "js_put (js_spread [] (unsigned_credential now uuid issuerDid subjectDid credentialType claims))
      ''proof'' p
     = unsigned_credential now uuid issuerDid subjectDid credentialType claims @ [(''proof'', p)]"
  by (simp only: unsigned_credential_def copy_credential attach_proof append.simps)

lemma stripped_shape:
  "js_spread [] (filter (\<lambda>(k, v). k \<noteq> ''proof'')
      (unsigned_credential now uuid issuerDid subjectDid credentialType claims @ [(''proof'', p)]))
     = unsigned_credential now uuid issuerDid subjectDid credentialType claims"
  by (simp only: unsigned_credential_def append.simps strip_proof)

lemma issue_unfold:
  "issueVerifiableCredential X now uuid issuerDid subjectDid credentialType claims
       issuerPrivateKey keyType =
     (let credential = unsigned_credential now uuid issuerDid subjectDid credentialType claims;
          message = utf8_json X (JObj credential);
          privateKeyBytes = hex_decode issuerPrivateKey
      in if keyType = ''ed25519''
         then (case signEd25519 X message privateKeyBytes of
                 Inl e \<Rightarrow> Inl e
               | Inr sigBytes \<Rightarrow>
                   Inr (credential @ [(''proof'',
                          JObj (proof_block ''Ed25519Signature2020'' now issuerDid sigBytes))]))
         else (case signSecp256k1 X message privateKeyBytes of
                 Inl e \<Rightarrow> Inl e
               | Inr sigBytes \<Rightarrow>
                   Inr (credential @ [(''proof'',
                          JObj (proof_block ''EcdsaSecp256k1Signature2019'' now issuerDid
                                  sigBytes))])))"
  by (simp add: issueVerifiableCredential_def Let_def issued_shape split: sum.splits)

lemma issued_fields:
  "js_get (JObj (unsigned_credential now uuid issuerDid subjectDid credentialType claims
                   @ [(''proof'', p)])) ''credentialSubject''
     = JObj (js_spread [(''id'', JStr subjectDid)] claims)"
  "js_get (JObj (unsigned_credential now uuid issuerDid subjectDid credentialType claims
                   @ [(''proof'', p)])) ''proof'' = p"
  "js_get (JObj (unsigned_credential now uuid issuerDid subjectDid credentialType claims
                   @ [(''proof'', p)])) ''issuer'' = JStr issuerDid"
  "js_get (JObj (unsigned_credential now uuid issuerDid subjectDid credentialType claims
                   @ [(''proof'', p)])) ''issuanceDate'' = JStr now"
  "js_get (JObj (unsigned_credential now uuid issuerDid subjectDid credentialType claims
                   @ [(''proof'', p)])) ''type''
     = JArr [JStr ''VerifiableCredential'', JStr credentialType]"
  "js_get (JObj (unsigned_credential now uuid issuerDid subjectDid credentialType claims
                   @ [(''proof'', p)])) ''@context''
     = JArr [JStr ''https://www.w3.org/2018/credentials/v1'']"
  by (simp_all add: unsigned_credential_def)

lemma proof_fields:
  "js_get (JObj (proof_block proofType now issuerDid sigBytes)) ''proofValue''
     = JStr (CHR ''z'' # base64_encode sigBytes)"
  "js_get (JObj (proof_block proofType now issuerDid sigBytes)) ''type'' = JStr proofType"
  by (simp_all add: proof_block_def)

lemma issue_Inr:
  assumes "issueVerifiableCredential X now uuid issuerDid subjectDid credentialType claims
             issuerPrivateKey keyType = Inr vc"
  shows "\<exists>p. vc = unsigned_credential now uuid issuerDid subjectDid credentialType claims
                     @ [(''proof'', p)]"
  using assms unfolding issue_unfold Let_def
  by (auto split: if_splits sum.splits)

lemma issued_subject:
  assumes "issueVerifiableCredential X now uuid issuerDid subjectDid credentialType claims
             issuerPrivateKey keyType = Inr vc"
  shows "js_get (JObj vc) ''credentialSubject'' = JObj (js_spread [(''id'', JStr subjectDid)] claims)"
proof -
  from issue_Inr [OF assms] obtain p where
    "vc = unsigned_credential now uuid issuerDid subjectDid credentialType claims
            @ [(''proof'', p)]" ..
  then show ?thesis by (simp only: issued_fields)
qed


text \<open>
  C10. In an issued credential, \<open>credentialSubject.id\<close> is the value of the \<open>id\<close> key
  of the claims when the claims have one, overriding \<open>subjectDid\<close>, and is
  \<open>subjectDid\<close> when they have none. (The keys of an object are distinct.)
\<close>

theorem claims_id_overrides_subject:
  assumes "issueVerifiableCredential X now uuid issuerDid subjectDid credentialType claims
             issuerPrivateKey keyType = Inr vc"
      and "distinct (map fst claims)"
  shows "js_get (js_get (JObj vc) ''credentialSubject'') ''id''
           = (case map_of claims ''id'' of Some v \<Rightarrow> v | None \<Rightarrow> JStr subjectDid)"
proof -
  have "js_get (js_get (JObj vc) ''credentialSubject'') ''id''
          = js_get (JObj (js_spread [(''id'', JStr subjectDid)] claims)) ''id''"
    by (simp only: issued_subject [OF assms(1)])
  also have "\<dots> = (case (map_of [(''id'', JStr subjectDid)] ++ map_of claims) ''id'' of
                      Some v \<Rightarrow> v | None \<Rightarrow> JUndefined)"
    by (simp only: js_get.simps map_of_js_spread map_of_rev_distinct [OF assms(2)])
  also have "\<dots> = (case map_of claims ''id'' of Some v \<Rightarrow> v | None \<Rightarrow> JStr subjectDid)"
    by (simp add: map_add_def split: option.splits)
  finally show ?thesis .
qed

theorem claims_id_overrides_subject_witness:
  "\<exists>vc. issueVerifiableCredential sample_externals ''2025-06-19T00:00:00.000Z'' ''1b4e28ba''
           ''did:key:z6Mk'' ''did:key:z6Mh'' ''IdentityCredential''
           [(''name'', JStr ''Ada''), (''id'', JStr ''did:key:z6Mx'')]
           ''0a0a0a0a0a0a0a0a0a0a0a0a0a0a0a0a0a0a0a0a0a0a0a0a0a0a0a0a0a0a0a0a'' ''ed25519''
         = Inr vc
        \<and> js_get (js_get (JObj vc) ''credentialSubject'') ''id'' = JStr ''did:key:z6Mx''"
proof -
  have "\<exists>vc. issueVerifiableCredential sample_externals ''2025-06-19T00:00:00.000Z'' ''1b4e28ba''
           ''did:key:z6Mk'' ''did:key:z6Mh'' ''IdentityCredential''
           [(''name'', JStr ''Ada''), (''id'', JStr ''did:key:z6Mx'')]
           ''0a0a0a0a0a0a0a0a0a0a0a0a0a0a0a0a0a0a0a0a0a0a0a0a0a0a0a0a0a0a0a0a'' ''ed25519''
         = Inr vc"
    unfolding issue_unfold Let_def sample_key_hex
    by (simp add: signEd25519_def sample_externals_def length_sample_key)
  then obtain vc where vc: "issueVerifiableCredential sample_externals
           ''2025-06-19T00:00:00.000Z'' ''1b4e28ba''
           ''did:key:z6Mk'' ''did:key:z6Mh'' ''IdentityCredential''
           [(''name'', JStr ''Ada''), (''id'', JStr ''did:key:z6Mx'')]
           ''0a0a0a0a0a0a0a0a0a0a0a0a0a0a0a0a0a0a0a0a0a0a0a0a0a0a0a0a0a0a0a0a'' ''ed25519''
         = Inr vc" ..
  have "distinct (map fst [(''name'', JStr ''Ada''), (''id'', JStr ''did:key:z6Mx'')])" by simp
  from claims_id_overrides_subject [OF vc this] vc show ?thesis by simp
qed



section \<open>The order of the checks\<close>

lemma verify_early:
  assumes "\<not> structure_ok credential \<or> \<not> proof_present credential"
  shows "verify_traced X credential issuerPublicKey keyType =
     (\<lparr>verified = False,
       issuer = js_or (js_get (JObj credential) ''issuer'') (JStr ''''),
       subject = js_or (js_get (js_get (JObj credential) ''credentialSubject'') ''id'') (JStr ''''),
       issuanceDate = js_or (js_get (JObj credential) ''issuanceDate'') (JStr ''''),
       errors = Some ((if \<not> structure_ok credential then [''Invalid credential structure''] else [])
                @ (if \<not> proof_present credential then [''Missing or invalid proof''] else []))\<rparr>,
      [])"
  using assms
  unfolding verify_traced_def structure_ok_def proof_present_def Let_def
  by (simp only: de_Morgan_conj) auto

lemma verify_late:
  assumes "structure_ok credential" "proof_present credential"
  shows "verify_traced X credential issuerPublicKey keyType =
     (case check_signature X credential issuerPublicKey keyType of
        (Inr r, calls) \<Rightarrow> (r, calls)
      | (Inl e, calls) \<Rightarrow>
          (\<lparr>verified = False,
            issuer = js_or (js_get (JObj credential) ''issuer'') (JStr ''''),
            subject = js_or (js_get (js_get (JObj credential) ''credentialSubject'') ''id'') (JStr ''''),
            issuanceDate = js_or (js_get (JObj credential) ''issuanceDate'') (JStr ''''),
            errors = Some [''Verification failed: ''
                             @ (case e of Error m \<Rightarrow> m | Thrown \<Rightarrow> ''Unknown error'')]\<rparr>,
           calls))"
  using assms
  unfolding verify_traced_def structure_ok_def proof_present_def Let_def
  by simp

lemma check_mismatch:
  assumes "js_get (js_get (JObj credential) ''proof'') ''proofValue'' = JStr pv"
      and "\<not> scheme_matches keyType credential"
  shows "check_signature X credential issuerPublicKey keyType =
           (Inr (conclude credential False [''Unsupported signature type or key mismatch'']), [])"
  using assms unfolding check_signature_def scheme_matches_def Let_def
  by auto

lemma mismatch_no_calls:
  assumes "\<not> scheme_matches keyType credential"
  shows "snd (check_signature X credential issuerPublicKey keyType) = []"
    and "case fst (check_signature X credential issuerPublicKey keyType) of
           Inl e \<Rightarrow> True | Inr r \<Rightarrow> \<not> verified r"
  using assms unfolding check_signature_def scheme_matches_def Let_def
  by (auto simp: conclude_def split: jsval.splits)


text \<open>
  C3, as amended. A credential whose \<open>proof.type\<close> does not match the type expected
  for the key type (\<open>ed25519\<close> with \<open>Ed25519Signature2020\<close>, \<open>secp256k1\<close> with
  \<open>EcdsaSecp256k1Signature2019\<close>) is never verified, and no verification primitive is
  called for it. The error \<open>Unsupported signature type or key mismatch\<close> (followed by
  \<open>Invalid signature\<close>) is reported when the credential has passed the structure
  check and carries a non-empty string \<open>proof.proofValue\<close>.
\<close>

theorem scheme_mismatch_fails_closed:
  assumes "\<not> scheme_matches keyType credential"
  shows "\<not> verified (verifyVerifiableCredential X credential issuerPublicKey keyType)
     \<and> signature_checks X credential issuerPublicKey keyType = []
     \<and> (structure_ok credential
          \<and> (\<exists>pv. pv \<noteq> [] \<and> js_get (js_get (JObj credential) ''proof'') ''proofValue'' = JStr pv)
        \<longrightarrow> errors (verifyVerifiableCredential X credential issuerPublicKey keyType)
              = Some [''Unsupported signature type or key mismatch'', ''Invalid signature''])"
proof (cases "structure_ok credential \<and> proof_present credential")
  case False
  then have e: "\<not> structure_ok credential \<or> \<not> proof_present credential" by blast
  have "\<not> (structure_ok credential
          \<and> (\<exists>pv. pv \<noteq> [] \<and> js_get (js_get (JObj credential) ''proof'') ''proofValue'' = JStr pv))"
    using False unfolding proof_present_def
    by (cases "js_get (JObj credential) ''proof''") auto
  then show ?thesis
    unfolding verifyVerifiableCredential_def signature_checks_def verify_early [OF e]
    by simp
next
  case True
  then have s: "structure_ok credential" and p: "proof_present credential" by blast+
  obtain res calls where c: "check_signature X credential issuerPublicKey keyType = (res, calls)"
    by (cases "check_signature X credential issuerPublicKey keyType")
  from mismatch_no_calls [OF assms, of X issuerPublicKey] c
  have calls: "calls = []" and res: "case res of Inl e \<Rightarrow> True | Inr r \<Rightarrow> \<not> verified r"
    by simp_all
  have 1: "\<not> verified (verifyVerifiableCredential X credential issuerPublicKey keyType)"
    unfolding verifyVerifiableCredential_def verify_late [OF s p] c using res
    by (cases res) simp_all
  have 2: "signature_checks X credential issuerPublicKey keyType = []"
    unfolding signature_checks_def verify_late [OF s p] c using calls
    by (cases res) simp_all
  have 3: "errors (verifyVerifiableCredential X credential issuerPublicKey keyType)
             = Some [''Unsupported signature type or key mismatch'', ''Invalid signature'']"
    if "js_get (js_get (JObj credential) ''proof'') ''proofValue'' = JStr pv" for pv
    unfolding verifyVerifiableCredential_def verify_late [OF s p] check_mismatch [OF that assms]
    by (simp add: conclude_def)
  from 1 2 3 show ?thesis by blast
qed

theorem scheme_mismatch_fails_closed_witness:
  "\<not> verified (verifyVerifiableCredential sample_externals
        [(''@context'', JArr [JStr ''https://www.w3.org/2018/credentials/v1'']),
         (''type'', JArr [JStr ''VerifiableCredential'']),
         (''issuer'', JStr ''did:key:z6Mk''),
         (''credentialSubject'', JObj [(''id'', JStr ''did:key:z6Mh'')]),
         (''proof'', JObj [(''type'', JStr ''Ed25519Signature2020''),
                           (''proofValue'', JStr ''zAAAA'')])]
        ''00'' ''secp256k1'')
   \<and> errors (verifyVerifiableCredential sample_externals
        [(''@context'', JArr [JStr ''https://www.w3.org/2018/credentials/v1'']),
         (''type'', JArr [JStr ''VerifiableCredential'']),
         (''issuer'', JStr ''did:key:z6Mk''),
         (''credentialSubject'', JObj [(''id'', JStr ''did:key:z6Mh'')]),
         (''proof'', JObj [(''type'', JStr ''Ed25519Signature2020''),
                           (''proofValue'', JStr ''zAAAA'')])]
        ''00'' ''secp256k1'')
       = Some [''Unsupported signature type or key mismatch'', ''Invalid signature'']"
  using scheme_mismatch_fails_closed [of "''secp256k1''"
        "[(''@context'', JArr [JStr ''https://www.w3.org/2018/credentials/v1'']),
         (''type'', JArr [JStr ''VerifiableCredential'']),
         (''issuer'', JStr ''did:key:z6Mk''),
         (''credentialSubject'', JObj [(''id'', JStr ''did:key:z6Mh'')]),
         (''proof'', JObj [(''type'', JStr ''Ed25519Signature2020''),
                           (''proofValue'', JStr ''zAAAA'')])]"
        sample_externals "''00''"]
  by (simp add: scheme_matches_def structure_ok_def)


text \<open>
  C3 as stated fails: with its \<open>@context\<close> missing, a credential whose proof type does
  not match the key type gets the structure error alone.
\<close>

theorem scheme_mismatch_hidden_by_structure_error:
  "\<not> scheme_matches ''secp256k1''
        [(''type'', JArr [JStr ''VerifiableCredential'']),
         (''issuer'', JStr ''did:key:z6Mk''),
         (''credentialSubject'', JObj [(''id'', JStr ''did:key:z6Mh'')]),
         (''proof'', JObj [(''type'', JStr ''Ed25519Signature2020''),
                           (''proofValue'', JStr ''zAAAA'')])]
   \<and> errors (verifyVerifiableCredential sample_externals
        [(''type'', JArr [JStr ''VerifiableCredential'']),
         (''issuer'', JStr ''did:key:z6Mk''),
         (''credentialSubject'', JObj [(''id'', JStr ''did:key:z6Mh'')]),
         (''proof'', JObj [(''type'', JStr ''Ed25519Signature2020''),
                           (''proofValue'', JStr ''zAAAA'')])]
        ''00'' ''secp256k1'')
       = Some [''Invalid credential structure'']"
  by (simp add: scheme_matches_def verifyVerifiableCredential_def verify_traced_def Let_def)

lemma check_not_string:
  assumes "\<forall>pv. js_get (js_get (JObj credential) ''proof'') ''proofValue'' \<noteq> JStr pv"
  shows "check_signature X credential issuerPublicKey keyType =
           (Inl (Error ''proof.proofValue.substring is not a function''), [])"
  using assms unfolding check_signature_def Let_def
  by (cases "js_get (js_get (JObj credential) ''proof'') ''proofValue''") simp_all

text \<open>
  C6, as amended. The errors are accumulated in two stages. A structural defect and a
  missing proof are reported together, and when either is found the call returns them
  without looking at the scheme or the signature. Otherwise, when \<open>proof.proofValue\<close>
  is a string, a scheme mismatch and the invalid signature it implies are reported
  together; when it is not a string, the single error
  \<open>Verification failed: proof.proofValue.substring is not a function\<close> is reported,
  whatever the scheme, and no primitive is called.
\<close>

theorem errors_accumulate_in_two_stages:
  "(\<not> structure_ok credential \<or> \<not> proof_present credential \<longrightarrow>
      errors (verifyVerifiableCredential X credential issuerPublicKey keyType)
        = Some ((if \<not> structure_ok credential then [''Invalid credential structure''] else [])
                 @ (if \<not> proof_present credential then [''Missing or invalid proof''] else []))
      \<and> signature_checks X credential issuerPublicKey keyType = [])
   \<and> (structure_ok credential \<and> proof_present credential
        \<and> (\<exists>pv. js_get (js_get (JObj credential) ''proof'') ''proofValue'' = JStr pv)
        \<and> \<not> scheme_matches keyType credential \<longrightarrow>
      errors (verifyVerifiableCredential X credential issuerPublicKey keyType)
        = Some [''Unsupported signature type or key mismatch'', ''Invalid signature''])
   \<and> (structure_ok credential \<and> proof_present credential
        \<and> (\<forall>pv. js_get (js_get (JObj credential) ''proof'') ''proofValue'' \<noteq> JStr pv) \<longrightarrow>
      errors (verifyVerifiableCredential X credential issuerPublicKey keyType)
        = Some [''Verification failed: proof.proofValue.substring is not a function'']
      \<and> signature_checks X credential issuerPublicKey keyType = [])"
proof (intro conjI impI)
  assume e: "\<not> structure_ok credential \<or> \<not> proof_present credential"
  show "errors (verifyVerifiableCredential X credential issuerPublicKey keyType)
        = Some ((if \<not> structure_ok credential then [''Invalid credential structure''] else [])
                 @ (if \<not> proof_present credential then [''Missing or invalid proof''] else []))"
    unfolding verifyVerifiableCredential_def verify_early [OF e] by simp
  show "signature_checks X credential issuerPublicKey keyType = []"
    unfolding signature_checks_def verify_early [OF e] by simp
next
  assume a: "structure_ok credential \<and> proof_present credential
        \<and> (\<exists>pv. js_get (js_get (JObj credential) ''proof'') ''proofValue'' = JStr pv)
        \<and> \<not> scheme_matches keyType credential"
  then obtain pv where pv: "js_get (js_get (JObj credential) ''proof'') ''proofValue'' = JStr pv"
    by blast
  from a have s: "structure_ok credential" and p: "proof_present credential"
    and m: "\<not> scheme_matches keyType credential" by blast+
  show "errors (verifyVerifiableCredential X credential issuerPublicKey keyType)
        = Some [''Unsupported signature type or key mismatch'', ''Invalid signature'']"
    unfolding verifyVerifiableCredential_def verify_late [OF s p] check_mismatch [OF pv m]
    by (simp add: conclude_def)
next
  assume a: "structure_ok credential \<and> proof_present credential
        \<and> (\<forall>pv. js_get (js_get (JObj credential) ''proof'') ''proofValue'' \<noteq> JStr pv)"
  then have s: "structure_ok credential" and p: "proof_present credential"
    and n: "\<forall>pv. js_get (js_get (JObj credential) ''proof'') ''proofValue'' \<noteq> JStr pv"
    by blast+
  show "errors (verifyVerifiableCredential X credential issuerPublicKey keyType)
        = Some [''Verification failed: proof.proofValue.substring is not a function'']"
    unfolding verifyVerifiableCredential_def verify_late [OF s p] check_not_string [OF n]
    by simp
  show "signature_checks X credential issuerPublicKey keyType = []"
    unfolding signature_checks_def verify_late [OF s p] check_not_string [OF n]
    by simp
qed

theorem errors_accumulate_in_two_stages_witness:
  "errors (verifyVerifiableCredential sample_externals
        [(''@context'', JArr [JStr ''https://www.w3.org/2018/credentials/v1'']),
         (''issuer'', JStr ''did:key:z6Mk''),
         (''credentialSubject'', JObj [(''id'', JStr ''did:key:z6Mh'')])]
        ''00'' ''ed25519'')
     = Some [''Invalid credential structure'', ''Missing or invalid proof'']
   \<and> errors (verifyVerifiableCredential sample_externals
        [(''@context'', JArr [JStr ''https://www.w3.org/2018/credentials/v1'']),
         (''type'', JArr [JStr ''VerifiableCredential'']),
         (''issuer'', JStr ''did:key:z6Mk''),
         (''credentialSubject'', JObj [(''id'', JStr ''did:key:z6Mh'')]),
         (''proof'', JObj [(''type'', JStr ''RsaSignature2018''),
                           (''proofValue'', JStr ''zAAAA'')])]
        ''00'' ''ed25519'')
     = Some [''Unsupported signature type or key mismatch'', ''Invalid signature'']
   \<and> errors (verifyVerifiableCredential sample_externals
        [(''@context'', JArr [JStr ''https://www.w3.org/2018/credentials/v1'']),
         (''type'', JArr [JStr ''VerifiableCredential'']),
         (''issuer'', JStr ''did:key:z6Mk''),
         (''credentialSubject'', JObj [(''id'', JStr ''did:key:z6Mh'')]),
         (''proof'', JObj [(''type'', JStr ''RsaSignature2018''),
                           (''proofValue'', JBool True)])]
        ''00'' ''ed25519'')
     = Some [''Verification failed: proof.proofValue.substring is not a function'']"
  using errors_accumulate_in_two_stages [of
        "[(''@context'', JArr [JStr ''https://www.w3.org/2018/credentials/v1'']),
         (''issuer'', JStr ''did:key:z6Mk''),
         (''credentialSubject'', JObj [(''id'', JStr ''did:key:z6Mh'')])]"
        sample_externals "''00''" "''ed25519''"]
    errors_accumulate_in_two_stages [of
        "[(''@context'', JArr [JStr ''https://www.w3.org/2018/credentials/v1'']),
         (''type'', JArr [JStr ''VerifiableCredential'']),
         (''issuer'', JStr ''did:key:z6Mk''),
         (''credentialSubject'', JObj [(''id'', JStr ''did:key:z6Mh'')]),
         (''proof'', JObj [(''type'', JStr ''RsaSignature2018''),
                           (''proofValue'', JStr ''zAAAA'')])]"
        sample_externals "''00''" "''ed25519''"]
    errors_accumulate_in_two_stages [of
        "[(''@context'', JArr [JStr ''https://www.w3.org/2018/credentials/v1'']),
         (''type'', JArr [JStr ''VerifiableCredential'']),
         (''issuer'', JStr ''did:key:z6Mk''),
         (''credentialSubject'', JObj [(''id'', JStr ''did:key:z6Mh'')]),
         (''proof'', JObj [(''type'', JStr ''RsaSignature2018''),
                           (''proofValue'', JBool True)])]"
        sample_externals "''00''" "''ed25519''"]
  by (simp add: scheme_matches_def structure_ok_def proof_present_def)

text \<open>
  C6 as stated fails: a credential with an empty \<open>issuer\<close> and a proof type that matches
  no scheme has two problems, and the call reports the first only.
\<close>

theorem later_problems_not_reported:
  "\<not> structure_ok
        [(''@context'', JArr [JStr ''https://www.w3.org/2018/credentials/v1'']),
         (''type'', JArr [JStr ''VerifiableCredential'']),
         (''issuer'', JStr ''''),
         (''credentialSubject'', JObj [(''id'', JStr ''did:key:z6Mh'')]),
         (''proof'', JObj [(''type'', JStr ''RsaSignature2018''),
                           (''proofValue'', JStr ''zAAAA'')])]
   \<and> \<not> scheme_matches ''ed25519''
        [(''@context'', JArr [JStr ''https://www.w3.org/2018/credentials/v1'']),
         (''type'', JArr [JStr ''VerifiableCredential'']),
         (''issuer'', JStr ''''),
         (''credentialSubject'', JObj [(''id'', JStr ''did:key:z6Mh'')]),
         (''proof'', JObj [(''type'', JStr ''RsaSignature2018''),
                           (''proofValue'', JStr ''zAAAA'')])]
   \<and> errors (verifyVerifiableCredential sample_externals
        [(''@context'', JArr [JStr ''https://www.w3.org/2018/credentials/v1'']),
         (''type'', JArr [JStr ''VerifiableCredential'']),
         (''issuer'', JStr ''''),
         (''credentialSubject'', JObj [(''id'', JStr ''did:key:z6Mh'')]),
         (''proof'', JObj [(''type'', JStr ''RsaSignature2018''),
                           (''proofValue'', JStr ''zAAAA'')])]
        ''00'' ''ed25519'')
       = Some [''Invalid credential structure'']"
  by (simp add: structure_ok_def scheme_matches_def verifyVerifiableCredential_def
        verify_traced_def Let_def)

section \<open>Issuance and the key type\<close>

text \<open>
  C2, as amended. Issuance has two branches only. The key type \<open>ed25519\<close> is signed by
  the Ed25519 primitive and labelled \<open>Ed25519Signature2020\<close>; every other key type, the
  unknown ones included, is signed by the secp256k1 primitive and labelled
  \<open>EcdsaSecp256k1Signature2019\<close>, exactly as \<open>secp256k1\<close> is. Issuance fails only when
  the signing primitive throws, and then with that primitive's exception.
\<close>

theorem issuance_has_two_branches:
  "(keyType = ''ed25519'' \<longrightarrow>
      issueVerifiableCredential X now uuid issuerDid subjectDid credentialType claims
          issuerPrivateKey keyType
        = (case signEd25519 X
                  (utf8_json X (JObj (unsigned_credential now uuid issuerDid subjectDid
                                         credentialType claims)))
                  (hex_decode issuerPrivateKey) of
             Inl e \<Rightarrow> Inl e
           | Inr sigBytes \<Rightarrow>
               Inr (unsigned_credential now uuid issuerDid subjectDid credentialType claims
                      @ [(''proof'', JObj (proof_block ''Ed25519Signature2020'' now
                                             issuerDid sigBytes))])))
   \<and> (keyType \<noteq> ''ed25519'' \<longrightarrow>
      issueVerifiableCredential X now uuid issuerDid subjectDid credentialType claims
          issuerPrivateKey keyType
        = issueVerifiableCredential X now uuid issuerDid subjectDid credentialType claims
            issuerPrivateKey ''secp256k1''
      \<and> issueVerifiableCredential X now uuid issuerDid subjectDid credentialType claims
          issuerPrivateKey keyType
        = (case signSecp256k1 X
                  (utf8_json X (JObj (unsigned_credential now uuid issuerDid subjectDid
                                         credentialType claims)))
                  (hex_decode issuerPrivateKey) of
             Inl e \<Rightarrow> Inl e
           | Inr sigBytes \<Rightarrow>
               Inr (unsigned_credential now uuid issuerDid subjectDid credentialType claims
                      @ [(''proof'', JObj (proof_block ''EcdsaSecp256k1Signature2019'' now
                                             issuerDid sigBytes))])))"
  unfolding issue_unfold Let_def by simp

lemma sample_secp_issue:
  assumes "keyType \<noteq> ''ed25519''"
  shows "issueVerifiableCredential sample_externals now uuid issuerDid subjectDid credentialType
      claims ''0a0a0a0a0a0a0a0a0a0a0a0a0a0a0a0a0a0a0a0a0a0a0a0a0a0a0a0a0a0a0a0a'' keyType
   = Inr (unsigned_credential now uuid issuerDid subjectDid credentialType claims
       @ [(''proof'', JObj (proof_block ''EcdsaSecp256k1Signature2019'' now issuerDid
            (toCompactRawBytes (sample_ecdsa sample_key
               (utf8_json sample_externals
                  (JObj (unsigned_credential now uuid issuerDid subjectDid
                           credentialType claims)))))))])"
  using assms unfolding issue_unfold Let_def sample_key_hex
  by (simp add: signSecp256k1_def sample_externals_def valid_sample_key)

theorem issuance_has_two_branches_witness:
  "issueVerifiableCredential sample_externals ''2025-06-19T00:00:00.000Z'' ''1b4e28ba''
      ''did:key:z6Mk'' ''did:key:z6Mh'' ''IdentityCredential'' [(''name'', JStr ''Ada'')]
      ''0a0a0a0a0a0a0a0a0a0a0a0a0a0a0a0a0a0a0a0a0a0a0a0a0a0a0a0a0a0a0a0a'' ''p256''
   = issueVerifiableCredential sample_externals ''2025-06-19T00:00:00.000Z'' ''1b4e28ba''
      ''did:key:z6Mk'' ''did:key:z6Mh'' ''IdentityCredential'' [(''name'', JStr ''Ada'')]
      ''0a0a0a0a0a0a0a0a0a0a0a0a0a0a0a0a0a0a0a0a0a0a0a0a0a0a0a0a0a0a0a0a'' ''secp256k1''
   \<and> (case issueVerifiableCredential sample_externals ''2025-06-19T00:00:00.000Z''
          ''1b4e28ba'' ''did:key:z6Mk'' ''did:key:z6Mh'' ''IdentityCredential''
          [(''name'', JStr ''Ada'')]
          ''0a0a0a0a0a0a0a0a0a0a0a0a0a0a0a0a0a0a0a0a0a0a0a0a0a0a0a0a0a0a0a0a'' ''ed25519'' of
        Inl e \<Rightarrow> False
      | Inr vc \<Rightarrow> js_get (js_get (JObj vc) ''proof'') ''type'' = JStr ''Ed25519Signature2020'')"
proof -
  have ne: "''p256'' \<noteq> ''ed25519''" by simp
  have 1: "issueVerifiableCredential sample_externals ''2025-06-19T00:00:00.000Z'' ''1b4e28ba''
      ''did:key:z6Mk'' ''did:key:z6Mh'' ''IdentityCredential'' [(''name'', JStr ''Ada'')]
      ''0a0a0a0a0a0a0a0a0a0a0a0a0a0a0a0a0a0a0a0a0a0a0a0a0a0a0a0a0a0a0a0a'' ''p256''
   = issueVerifiableCredential sample_externals ''2025-06-19T00:00:00.000Z'' ''1b4e28ba''
      ''did:key:z6Mk'' ''did:key:z6Mh'' ''IdentityCredential'' [(''name'', JStr ''Ada'')]
      ''0a0a0a0a0a0a0a0a0a0a0a0a0a0a0a0a0a0a0a0a0a0a0a0a0a0a0a0a0a0a0a0a'' ''secp256k1''"
    using issuance_has_two_branches [of "''p256''" sample_externals] ne by blast
  have s: "signEd25519 sample_externals m (hex_decode ''0a0a0a0a0a0a0a0a0a0a0a0a0a0a0a0a0a0a0a0a0a0a0a0a0a0a0a0a0a0a0a0a'') = Inr (tag64 sample_key m)" for m
    unfolding sample_key_hex
    by (simp add: signEd25519_def sample_externals_def length_sample_key)
  have 2: "case issueVerifiableCredential sample_externals ''2025-06-19T00:00:00.000Z''
          ''1b4e28ba'' ''did:key:z6Mk'' ''did:key:z6Mh'' ''IdentityCredential''
          [(''name'', JStr ''Ada'')]
          ''0a0a0a0a0a0a0a0a0a0a0a0a0a0a0a0a0a0a0a0a0a0a0a0a0a0a0a0a0a0a0a0a'' ''ed25519'' of
        Inl e \<Rightarrow> False
      | Inr vc \<Rightarrow> js_get (js_get (JObj vc) ''proof'') ''type'' = JStr ''Ed25519Signature2020''"
    using issuance_has_two_branches [of "''ed25519''" sample_externals
        "''2025-06-19T00:00:00.000Z''" "''1b4e28ba''" "''did:key:z6Mk''" "''did:key:z6Mh''"
        "''IdentityCredential''" "[(''name'', JStr ''Ada'')]"
        "''0a0a0a0a0a0a0a0a0a0a0a0a0a0a0a0a0a0a0a0a0a0a0a0a0a0a0a0a0a0a0a0a''"]
    by (simp only: s sum.case refl simp_thms issued_fields proof_fields)
  from 1 2 show ?thesis by blast
qed

text \<open>
  C2 as stated fails: for the key type \<open>rsa\<close> and a valid private key, issuance does not
  fail; it returns a credential with a secp256k1 proof.
\<close>

theorem unknown_key_type_is_signed:
  "case issueVerifiableCredential sample_externals ''2025-06-19T00:00:00.000Z'' ''1b4e28ba''
      ''did:key:z6Mk'' ''did:key:z6Mh'' ''IdentityCredential'' [(''name'', JStr ''Ada'')]
      ''0a0a0a0a0a0a0a0a0a0a0a0a0a0a0a0a0a0a0a0a0a0a0a0a0a0a0a0a0a0a0a0a'' ''rsa'' of
     Inl e \<Rightarrow> False
   | Inr vc \<Rightarrow> js_get (js_get (JObj vc) ''proof'') ''type'' = JStr ''EcdsaSecp256k1Signature2019''"
proof -
  have ne: "''rsa'' \<noteq> ''ed25519''" by simp
  show ?thesis
    unfolding sample_secp_issue [OF ne] sum.case
    by (simp only: issued_fields proof_fields)
qed

section \<open>Exceptions of the verification primitives\<close>

text \<open>
  C4. An exception thrown by the library's \<open>ed25519.verify\<close> leaves \<open>verifyEd25519\<close>
  as it is, whereas \<open>verifySecp256k1\<close> never lets one out. So \<open>verifyEd25519\<close> returns
  \<open>false\<close> on malformed input only where the library itself does, and not where the
  library throws, as it does for a signature of the wrong length.
\<close>

theorem ed25519_verify_exception_escapes:
  "(ed25519_verify X signature message pk = Inl e
      \<longrightarrow> verifyEd25519 X signature message pk = Inl e)
   \<and> verifySecp256k1 X signature message pk \<noteq> Inl e"
  by (simp add: verifyEd25519_def verifySecp256k1_def split: sum.splits)

theorem ed25519_verify_exception_escapes_witness:
  "verifyEd25519 sample_externals (replicate 63 0) [1, 2, 3] [10]
     = Inl (Error ''signature expected 64 bytes'')
   \<and> verifySecp256k1 sample_externals (replicate 63 0) [1, 2, 3] [10] = Inr False"
proof -
  have "ed25519_verify sample_externals (replicate 63 0) [1, 2, 3] [10]
          = Inl (Error ''signature expected 64 bytes'')"
    by (simp add: sample_externals_def)
  moreover have "verifySecp256k1 sample_externals (replicate 63 0) [1, 2, 3] [10] = Inr False"
    by (simp add: verifySecp256k1_def sample_externals_def valid_scalar_def)
  ultimately show ?thesis
    using ed25519_verify_exception_escapes [of sample_externals "replicate 63 0" "[1, 2, 3]"
        "[10]" "Error ''signature expected 64 bytes''"]
    by simp
qed


section \<open>The base64 encoder is the standard's\<close>

text \<open>
  \<open>base64_encode\<close> works on three bytes at a time with divisions; the standard speaks
  of a string of bits cut into groups of six. Both give the same characters.
\<close>

subsection \<open>Bit strings and their values\<close>

lemma bits_value_append:
  "bits_value (xs @ ys) = bits_value xs * 2 ^ length ys + bits_value ys"
proof -
  define f :: "nat \<Rightarrow> bool \<Rightarrow> nat" where "f = (\<lambda>v x. 2 * v + (if x then 1 else 0))"
  have step: "f (p + q) y = 2 * p + f q y" for p q y
    unfolding f_def by simp
  have "foldl f a ys = a * 2 ^ length ys + foldl f 0 ys" for a
  proof (induction ys arbitrary: a rule: rev_induct)
    case Nil
    show ?case by simp
  next
    case (snoc y ys)
    have "foldl f a (ys @ [y]) = f (foldl f a ys) y" by simp
    also have "\<dots> = f (a * 2 ^ length ys + foldl f 0 ys) y" by (simp only: snoc [of a])
    also have "\<dots> = 2 * (a * 2 ^ length ys) + f (foldl f 0 ys) y" by (rule step)
    also have "\<dots> = a * 2 ^ length (ys @ [y]) + foldl f 0 (ys @ [y])" by simp
    finally show ?case .
  qed
  from this [of "foldl f 0 xs"] show ?thesis
    unfolding bits_value_def f_def [symmetric] by simp
qed

lemma bits_value_bound: "bits_value xs < 2 ^ length xs"
proof (induction xs rule: rev_induct)
  case Nil
  show ?case by (simp add: bits_value_def)
next
  case (snoc x xs)
  have "bits_value (xs @ [x]) = bits_value xs * 2 + (if x then 1 else 0)"
    by (simp add: bits_value_def)
  with snoc show ?case by (simp split: if_splits)
qed

lemma bits_value_take:
  "bits_value (take k xs) = bits_value xs div 2 ^ (length xs - k)"
proof -
  have "bits_value xs = bits_value (take k xs) * 2 ^ length (drop k xs) + bits_value (drop k xs)"
    using bits_value_append [of "take k xs" "drop k xs"] by simp
  moreover have "bits_value (drop k xs) < 2 ^ length (drop k xs)" by (rule bits_value_bound)
  ultimately show ?thesis by simp
qed

lemma bits_value_drop:
  "bits_value (drop k xs) = bits_value xs mod 2 ^ (length xs - k)"
proof -
  have "bits_value xs = bits_value (take k xs) * 2 ^ length (drop k xs) + bits_value (drop k xs)"
    using bits_value_append [of "take k xs" "drop k xs"] by simp
  moreover have "bits_value (drop k xs) < 2 ^ length (drop k xs)" by (rule bits_value_bound)
  ultimately show ?thesis by simp
qed

lemma length_byte_bits: "length (byte_bits b) = 8"
  by (simp add: byte_bits_def)

lemma value_bits_below:
  "bits_value (map (\<lambda>i. odd (n div 2 ^ i)) (rev [0..<k])) = n mod 2 ^ k"
proof (induction k arbitrary: n)
  case 0
  show ?case by (simp add: bits_value_def)
next
  case (Suc k)
  have "bits_value (map (\<lambda>i. odd (n div 2 ^ i)) (rev [0..<Suc k]))
          = bits_value ([odd (n div 2 ^ k)] @ map (\<lambda>i. odd (n div 2 ^ i)) (rev [0..<k]))"
    by simp
  also have "\<dots> = (if odd (n div 2 ^ k) then 1 else 0) * 2 ^ k + n mod 2 ^ k"
    unfolding bits_value_append Suc by (simp add: bits_value_def)
  also have "\<dots> = (n div 2 ^ k mod 2) * 2 ^ k + n mod 2 ^ k"
    by (simp add: odd_iff_mod_2_eq_one)
  also have "\<dots> = n mod 2 ^ Suc k"
  proof -
    have "n mod 2 ^ Suc k = n mod (2 ^ k * 2)" by (simp only: power_Suc2)
    also have "\<dots> = 2 ^ k * (n div 2 ^ k mod 2) + n mod 2 ^ k"
      by (rule mod_mult2_eq)
    also have "\<dots> = (n div 2 ^ k mod 2) * 2 ^ k + n mod 2 ^ k"
      by (simp only: mult.commute)
    finally show ?thesis by (rule sym)
  qed
  finally show ?case .
qed

lemma value_byte_bits: "bits_value (byte_bits b) = unat b"
proof -
  have "[7, 6, 5, 4, 3, 2, 1, 0] = rev [0..<8::nat]" by (simp add: upt_rec)
  then have "bits_value (byte_bits b) = unat b mod 2 ^ 8"
    unfolding byte_bits_def by (simp only: value_bits_below)
  with unat_byte [of b] show ?thesis by simp
qed

subsection \<open>Groups of six bits\<close>

lemma sextets_of_Nil: "sextets_of [] = []"
  by (subst sextets_of.simps) simp

lemma sextets_of_full:
  assumes "length g = 6"
  shows "sextets_of (g @ ys) = g # sextets_of ys"
proof -
  have "g \<noteq> []" using assms by auto
  then show ?thesis
    using assms by (subst sextets_of.simps) simp
qed

lemma sextets_of_short:
  assumes "xs \<noteq> []" "length xs < 6"
  shows "sextets_of xs = [xs @ replicate (6 - length xs) False]"
proof -
  have "6 - length xs \<le> 5" using assms by (cases xs) auto
  then have "take (6 - length xs) (replicate 5 False) = replicate (6 - length xs) False"
    by (simp add: min_def)
  with assms show ?thesis
    by (subst sextets_of.simps) (simp add: sextets_of_Nil)
qed

lemma mod_div_shift: "0 < a \<Longrightarrow> (n mod (a * b)) div a = n div a mod (b::nat)"
  by (simp add: mod_mult2_eq)

lemma sextets_step:
  assumes "6 \<le> length xs"
  shows "sextets_of xs = take 6 xs # sextets_of (drop 6 xs)"
proof -
  have "length (take 6 xs) = 6" using assms by simp
  from sextets_of_full [OF this, of "drop 6 xs"] show ?thesis by simp
qed

lemma split24:
  assumes "length W = 24"
  shows "sextets_of (W @ R)
           = [take 6 W, take 6 (drop 6 W), take 6 (drop 12 W), drop 18 W] @ sextets_of R"
proof -
  have "sextets_of (W @ R) = take 6 W # sextets_of (drop 6 W @ R)"
    using assms by (subst sextets_step) simp_all
  also have "sextets_of (drop 6 W @ R) = take 6 (drop 6 W) # sextets_of (drop 12 W @ R)"
    using assms by (subst sextets_step) simp_all
  also have "sextets_of (drop 12 W @ R) = take 6 (drop 12 W) # sextets_of (drop 18 W @ R)"
    using assms by (subst sextets_step) simp_all
  also have "sextets_of (drop 18 W @ R) = drop 18 W # sextets_of R"
    using assms by (intro sextets_of_full) simp
  finally show ?thesis by simp
qed

lemma split16:
  assumes "length W = 16"
  shows "sextets_of W = [take 6 W, take 6 (drop 6 W), drop 12 W @ [False, False]]"
proof -
  have "sextets_of W = take 6 W # sextets_of (drop 6 W)"
    using assms by (subst sextets_step) simp_all
  also have "sextets_of (drop 6 W) = take 6 (drop 6 W) # sextets_of (drop 12 W)"
    using assms by (subst sextets_step) simp_all
  also have "sextets_of (drop 12 W) = [drop 12 W @ replicate (6 - length (drop 12 W)) False]"
    using assms by (intro sextets_of_short) auto
  finally show ?thesis using assms by (simp add: numeral_eq_Suc)
qed

lemma split8:
  assumes "length W = 8"
  shows "sextets_of W = [take 6 W, drop 6 W @ [False, False, False, False]]"
proof -
  have "sextets_of W = take 6 W # sextets_of (drop 6 W)"
    using assms by (subst sextets_step) simp_all
  also have "sextets_of (drop 6 W) = [drop 6 W @ replicate (6 - length (drop 6 W)) False]"
    using assms by (intro sextets_of_short) auto
  finally show ?thesis using assms by (simp add: numeral_eq_Suc)
qed

subsection \<open>The characters of one, two and three bytes\<close>

lemma values24:
  fixes a b c :: byte
  defines "W \<equiv> byte_bits a @ byte_bits b @ byte_bits c"
      and "n \<equiv> unat a * 65536 + unat b * 256 + unat c"
  shows "length W = 24"
    and "bits_value (take 6 W) = n div 262144"
    and "bits_value (take 6 (drop 6 W)) = n div 4096 mod 64"
    and "bits_value (take 6 (drop 12 W)) = n div 64 mod 64"
    and "bits_value (drop 18 W) = n mod 64"
proof -
  show l: "length W = 24" by (simp add: W_def length_byte_bits)
  have v: "bits_value W = n"
    by (simp add: W_def n_def bits_value_append value_byte_bits length_byte_bits)
  show "bits_value (take 6 W) = n div 262144"
    by (simp add: bits_value_take l v)
  have "bits_value (take 6 (drop 6 W)) = (n mod (4096 * 64)) div 4096"
    by (simp add: bits_value_take bits_value_drop l v)
  then show "bits_value (take 6 (drop 6 W)) = n div 4096 mod 64"
    by (simp only: mod_div_shift zero_less_numeral)
  have "bits_value (take 6 (drop 12 W)) = (n mod (64 * 64)) div 64"
    by (simp add: bits_value_take bits_value_drop l v)
  then show "bits_value (take 6 (drop 12 W)) = n div 64 mod 64"
    by (simp only: mod_div_shift zero_less_numeral)
  show "bits_value (drop 18 W) = n mod 64"
    by (simp add: bits_value_drop l v)
qed

lemma values16:
  fixes a b :: byte
  defines "W \<equiv> byte_bits a @ byte_bits b"
      and "n \<equiv> (unat a * 256 + unat b) * 4"
  shows "length W = 16"
    and "bits_value (take 6 W) = n div 4096"
    and "bits_value (take 6 (drop 6 W)) = n div 64 mod 64"
    and "bits_value (drop 12 W @ [False, False]) = n mod 64"
proof -
  define m where "m = unat a * 256 + unat b"
  have n: "n = m * 4" by (simp add: n_def m_def)
  show l: "length W = 16" by (simp add: W_def length_byte_bits)
  have v: "bits_value W = m"
    by (simp add: W_def m_def bits_value_append value_byte_bits length_byte_bits)
  have "m * 4 div 4096 = m div 1024"
    using div_mult2_eq [of "m * 4" 4 1024] by simp
  then show "bits_value (take 6 W) = n div 4096"
    by (simp add: bits_value_take l v n)
  have "bits_value (take 6 (drop 6 W)) = (m mod (16 * 64)) div 16"
    by (simp add: bits_value_take bits_value_drop l v)
  then have "bits_value (take 6 (drop 6 W)) = m div 16 mod 64"
    by (simp only: mod_div_shift zero_less_numeral)
  moreover have "m * 4 div 64 = m div 16"
    using div_mult2_eq [of "m * 4" 4 16] by simp
  ultimately show "bits_value (take 6 (drop 6 W)) = n div 64 mod 64"
    by (simp add: n)
  have "bits_value (drop 12 W @ [False, False]) = (m mod 16) * 4"
    by (simp add: bits_value_append bits_value_drop l v) (simp add: bits_value_def)
  moreover have "m * 4 mod 64 = (m mod 16) * 4"
    using mult_mod_left [where c = 4 and a = m and b = 16] by (simp add: mult.commute)
  ultimately show "bits_value (drop 12 W @ [False, False]) = n mod 64"
    by (simp add: n)
qed

lemma values8:
  fixes a :: byte
  defines "W \<equiv> byte_bits a"
      and "n \<equiv> unat a * 16"
  shows "length W = 8"
    and "bits_value (take 6 W) = n div 64"
    and "bits_value (drop 6 W @ [False, False, False, False]) = n mod 64"
proof -
  show l: "length W = 8" by (simp add: W_def length_byte_bits)
  have v: "bits_value W = unat a" by (simp add: W_def value_byte_bits)
  have "unat a * 16 div 64 = unat a div 4"
    using div_mult2_eq [of "unat a * 16" 16 4] by simp
  then show "bits_value (take 6 W) = n div 64"
    by (simp add: bits_value_take l v n_def)
  have "bits_value (drop 6 W @ [False, False, False, False]) = (unat a mod 4) * 16"
    by (simp add: bits_value_append bits_value_drop l v) (simp add: bits_value_def)
  moreover have "unat a * 16 mod 64 = (unat a mod 4) * 16"
    using mult_mod_left [where c = 16 and a = "unat a" and b = 4] by (simp add: mult.commute)
  ultimately show "bits_value (drop 6 W @ [False, False, False, False]) = n mod 64"
    by (simp add: n_def)
qed

lemma rfc_chars_Nil: "rfc_chars [] = []"
  by (simp add: rfc_chars_def sextets_of_Nil)

lemma rfc_chars3:
  "rfc_chars (a # b # c # rest) =
     (let n = unat a * 65536 + unat b * 256 + unat c in
      [b64_char (n div 262144), b64_char (n div 4096 mod 64),
       b64_char (n div 64 mod 64), b64_char (n mod 64)]) @ rfc_chars rest"
proof -
  have c: "concat (map byte_bits (a # b # c # rest)) =
      (byte_bits a @ byte_bits b @ byte_bits c) @ concat (map byte_bits rest)"
    by simp
  show ?thesis
    unfolding rfc_chars_def c split24 [OF values24(1)]
    by (simp only: list.map map_append values24 Let_def b64_char_def append.simps)
qed

lemma rfc_chars2:
  "rfc_chars [a, b] =
     (let n = (unat a * 256 + unat b) * 4 in
      [b64_char (n div 4096), b64_char (n div 64 mod 64), b64_char (n mod 64)])"
proof -
  have c: "concat (map byte_bits [a, b]) = byte_bits a @ byte_bits b"
    by simp
  show ?thesis
    unfolding rfc_chars_def c split16 [OF values16(1)]
    by (simp only: list.map values16 Let_def b64_char_def)
qed

lemma rfc_chars1:
  "rfc_chars [a] =
     (let n = unat a * 16 in [b64_char (n div 64), b64_char (n mod 64)])"
proof -
  have c: "concat (map byte_bits [a]) = byte_bits a"
    by simp
  show ?thesis
    unfolding rfc_chars_def c split8 [OF values8(1)]
    by (simp only: list.map values8 Let_def b64_char_def)
qed

lemma base64_encode_rfc4648: "base64_encode bs = rfc4648_base64 bs"
proof (induction bs rule: base64_encode.induct)
  case (1 a b c rest)
  then show ?case
    by (simp add: rfc4648_base64_def rfc_chars3 Let_def)
next
  case (2 a b)
  show ?case
    by (simp add: rfc4648_base64_def rfc_chars2 Let_def)
next
  case (3 a)
  show ?case
    by (simp add: rfc4648_base64_def rfc_chars1 Let_def numeral_2_eq_2)
next
  case 4
  show ?case
    by (simp add: rfc4648_base64_def rfc_chars_Nil)
qed


subsection \<open>The test vectors of RFC 4648, section 10\<close>

lemma rfc4648_vectors:
  "rfc4648_base64 (text_bytes '''') = ''''"
  "rfc4648_base64 (text_bytes ''f'') = ''Zg==''"
  "rfc4648_base64 (text_bytes ''fo'') = ''Zm8=''"
  "rfc4648_base64 (text_bytes ''foo'') = ''Zm9v''"
  "rfc4648_base64 (text_bytes ''foob'') = ''Zm9vYg==''"
  "rfc4648_base64 (text_bytes ''fooba'') = ''Zm9vYmE=''"
  "rfc4648_base64 (text_bytes ''foobar'') = ''Zm9vYmFy''"
  by (simp_all add: rfc4648_base64_def rfc_chars_def text_bytes_def byte_bits_def
        sextets_of.simps bits_value_def b64_alphabet_def)
     (simp_all add: numeral_eq_Suc)


section \<open>The proof value\<close>

subsection \<open>The compact encoding of a signature\<close>

lemma length_be_bytes: "length (be_bytes k v) = k"
  by (induction k arbitrary: v) simp_all

lemma nat_of_bytes_be_bytes: "nat_of_bytes (be_bytes k v) = v mod 256 ^ k"
proof (induction k arbitrary: v)
  case 0
  show ?case by (simp add: nat_of_bytes_def)
next
  case (Suc k)
  have "nat_of_bytes (be_bytes (Suc k) v) = (v div 256) mod 256 ^ k * 256 + v mod 256"
    by (simp add: nat_of_bytes_snoc Suc unat_of_nat)
  also have "\<dots> = v mod 256 ^ Suc k"
    by (simp add: mod_mult2_eq)
  finally show ?case .
qed

lemma length_toCompactRawBytes: "length (toCompactRawBytes sg) = 64"
  by (simp add: toCompactRawBytes_def length_be_bytes)

lemma compact_halves:
  "nat_of_bytes (take 32 (toCompactRawBytes sg)) = sig_r sg mod 2 ^ 256"
  "nat_of_bytes (drop 32 (toCompactRawBytes sg)) = sig_s sg mod 2 ^ 256"
proof -
  have p: "(256::nat) ^ 32 = 2 ^ 256" by simp
  show "nat_of_bytes (take 32 (toCompactRawBytes sg)) = sig_r sg mod 2 ^ 256"
    by (simp only: toCompactRawBytes_def take_append length_be_bytes diff_self_eq_0 take_0
          append_Nil2 take_all [of "be_bytes 32 (sig_r sg)" 32] order_refl
          nat_of_bytes_be_bytes p)
  show "nat_of_bytes (drop 32 (toCompactRawBytes sg)) = sig_s sg mod 2 ^ 256"
    by (simp only: toCompactRawBytes_def drop_append length_be_bytes diff_self_eq_0 drop_0
          append_Nil drop_all [of "be_bytes 32 (sig_r sg)" 32] order_refl
          nat_of_bytes_be_bytes p)
qed

lemma be_bytes_small:
  "v < 256 \<Longrightarrow> be_bytes (Suc k) v = replicate k 0 @ [of_nat v]"
proof -
  have z: "be_bytes k 0 = replicate k 0" for k
    by (induction k) (simp_all add: replicate_append_same)
  show "v < 256 \<Longrightarrow> be_bytes (Suc k) v = replicate k 0 @ [of_nat v]"
    by (simp add: z)
qed

lemma sample_signature:
  "sample_ecdsa sample_key
     (utf8_json sample_externals
        (JObj (unsigned_credential ''2025-06-19T00:00:00.000Z'' ''1b4e28ba'' ''did:key:z6Mk''
                 ''did:key:z6Mh'' ''IdentityCredential'' [(''name'', JStr ''Ada'')])))
   = Signature 65 87"
  by (simp add: sample_ecdsa_def sample_externals_def unsigned_credential_def text_bytes_def
        checksum_def sample_key_list)

lemma sample_compact_base64:
  "base64_encode (toCompactRawBytes (Signature 65 87))
     = ''AAAAAAAAAAAAAAAAAAAAAAAAAAAAAAAAAAAAAAAAAEEAAAAAAAAAAAAAAAAAAAAAAAAAAAAAAAAAAAAAAAAAVw==''"
proof -
  have "toCompactRawBytes (Signature 65 87) = replicate 31 0 @ [65] @ replicate 31 0 @ [87]"
    using be_bytes_small [of 65 31] be_bytes_small [of 87 31]
    by (simp add: toCompactRawBytes_def)
  also have "\<dots> = [0, 0, 0, 0, 0, 0, 0, 0, 0, 0, 0, 0, 0, 0, 0, 0, 0, 0, 0, 0, 0, 0, 0, 0, 0, 0, 0, 0, 0, 0, 0, 65,
                   0, 0, 0, 0, 0, 0, 0, 0, 0, 0, 0, 0, 0, 0, 0, 0, 0, 0, 0, 0, 0, 0, 0, 0, 0, 0, 0, 0, 0, 0, 0, 87]"
    by (simp add: numeral_eq_Suc)
  finally show ?thesis
    by (simp add: b64_char_def b64_alphabet_def)
qed

text \<open>
  C8. In every issued credential \<open>proof.proofValue\<close> is the character \<open>z\<close> followed by
  the standard base64 encoding of the signature bytes, from which base64 decoding gives
  the signature bytes back. For the key type \<open>ed25519\<close> the signature bytes are what
  \<open>ed25519.sign\<close> returned; otherwise they are the compact encoding of the signature
  that \<open>secp256k1.sign\<close> returned: 64 bytes, the first 32 the number \<open>r\<close> and the last
  32 the number \<open>s\<close>.
\<close>

theorem proof_value_encoding:
  assumes "issueVerifiableCredential X now uuid issuerDid subjectDid credentialType claims
             issuerPrivateKey keyType = Inr vc"
  shows "\<exists>sigBytes.
           js_get (js_get (JObj vc) ''proof'') ''proofValue''
             = JStr (CHR ''z'' # rfc4648_base64 sigBytes)
         \<and> base64_decode (rfc4648_base64 sigBytes) = sigBytes
         \<and> (if keyType = ''ed25519''
            then ed25519_sign X
                   (utf8_json X (JObj (unsigned_credential now uuid issuerDid subjectDid
                                          credentialType claims)))
                   (hex_decode issuerPrivateKey) = Inr sigBytes
            else (\<exists>sg. secp256k1_sign X
                          (utf8_json X (JObj (unsigned_credential now uuid issuerDid subjectDid
                                                 credentialType claims)))
                          (hex_decode issuerPrivateKey) = Inr sg
                      \<and> sigBytes = toCompactRawBytes sg
                      \<and> length sigBytes = 64
                      \<and> nat_of_bytes (take 32 sigBytes) = sig_r sg mod 2 ^ 256
                      \<and> nat_of_bytes (drop 32 sigBytes) = sig_s sg mod 2 ^ 256))"
proof (cases "keyType = ''ed25519''")
  case True
  with assms obtain sigBytes where
    s: "ed25519_sign X
          (utf8_json X (JObj (unsigned_credential now uuid issuerDid subjectDid
                                 credentialType claims)))
          (hex_decode issuerPrivateKey) = Inr sigBytes"
    and vc: "vc = unsigned_credential now uuid issuerDid subjectDid credentialType claims
               @ [(''proof'', JObj (proof_block ''Ed25519Signature2020'' now issuerDid
                                      sigBytes))]"
    unfolding issue_unfold Let_def signEd25519_def
    by (auto split: sum.splits)
  have "js_get (js_get (JObj vc) ''proof'') ''proofValue''
          = JStr (CHR ''z'' # rfc4648_base64 sigBytes)"
    unfolding vc by (simp only: issued_fields proof_fields base64_encode_rfc4648)
  moreover have "base64_decode (rfc4648_base64 sigBytes) = sigBytes"
    using base64_decode_encode [of sigBytes] by (simp only: base64_encode_rfc4648)
  ultimately show ?thesis using True s by auto
next
  case False
  with assms obtain sg where
    s: "secp256k1_sign X
          (utf8_json X (JObj (unsigned_credential now uuid issuerDid subjectDid
                                 credentialType claims)))
          (hex_decode issuerPrivateKey) = Inr sg"
    and vc: "vc = unsigned_credential now uuid issuerDid subjectDid credentialType claims
               @ [(''proof'', JObj (proof_block ''EcdsaSecp256k1Signature2019'' now issuerDid
                                      (toCompactRawBytes sg)))]"
    unfolding issue_unfold Let_def signSecp256k1_def
    by (auto split: sum.splits)
  have "js_get (js_get (JObj vc) ''proof'') ''proofValue''
          = JStr (CHR ''z'' # rfc4648_base64 (toCompactRawBytes sg))"
    unfolding vc by (simp only: issued_fields proof_fields base64_encode_rfc4648)
  moreover have "base64_decode (rfc4648_base64 (toCompactRawBytes sg)) = toCompactRawBytes sg"
    using base64_decode_encode [of "toCompactRawBytes sg"]
    by (simp only: base64_encode_rfc4648)
  ultimately show ?thesis
    using False s length_toCompactRawBytes [of sg] compact_halves [of sg] by auto
qed

theorem proof_value_encoding_witness:
  "\<exists>vc. issueVerifiableCredential sample_externals ''2025-06-19T00:00:00.000Z'' ''1b4e28ba''
           ''did:key:z6Mk'' ''did:key:z6Mh'' ''IdentityCredential'' [(''name'', JStr ''Ada'')]
           ''0a0a0a0a0a0a0a0a0a0a0a0a0a0a0a0a0a0a0a0a0a0a0a0a0a0a0a0a0a0a0a0a'' ''secp256k1''
         = Inr vc
      \<and> js_get (js_get (JObj vc) ''proof'') ''proofValue''
          = JStr ''zAAAAAAAAAAAAAAAAAAAAAAAAAAAAAAAAAAAAAAAAAEEAAAAAAAAAAAAAAAAAAAAAAAAAAAAAAAAAAAAAAAAAVw==''
      \<and> length (base64_decode
           ''AAAAAAAAAAAAAAAAAAAAAAAAAAAAAAAAAAAAAAAAAEEAAAAAAAAAAAAAAAAAAAAAAAAAAAAAAAAAAAAAAAAAVw=='')
          = 64
      \<and> nat_of_bytes (take 32 (base64_decode
           ''AAAAAAAAAAAAAAAAAAAAAAAAAAAAAAAAAAAAAAAAAEEAAAAAAAAAAAAAAAAAAAAAAAAAAAAAAAAAAAAAAAAAVw==''))
          = 65
      \<and> nat_of_bytes (drop 32 (base64_decode
           ''AAAAAAAAAAAAAAAAAAAAAAAAAAAAAAAAAAAAAAAAAEEAAAAAAAAAAAAAAAAAAAAAAAAAAAAAAAAAAAAAAAAAVw==''))
          = 87"
proof -
  define message where "message = utf8_json sample_externals
        (JObj (unsigned_credential ''2025-06-19T00:00:00.000Z'' ''1b4e28ba'' ''did:key:z6Mk''
                 ''did:key:z6Mh'' ''IdentityCredential'' [(''name'', JStr ''Ada'')]))"
  have ne: "''secp256k1'' \<noteq> ''ed25519''" by simp
  from sample_secp_issue [OF ne] obtain vc where
    vc: "issueVerifiableCredential sample_externals ''2025-06-19T00:00:00.000Z'' ''1b4e28ba''
           ''did:key:z6Mk'' ''did:key:z6Mh'' ''IdentityCredential'' [(''name'', JStr ''Ada'')]
           ''0a0a0a0a0a0a0a0a0a0a0a0a0a0a0a0a0a0a0a0a0a0a0a0a0a0a0a0a0a0a0a0a'' ''secp256k1''
         = Inr vc"
    by blast
  from proof_value_encoding [OF vc] have
    "\<exists>sigBytes.
       js_get (js_get (JObj vc) ''proof'') ''proofValue''
         = JStr (CHR ''z'' # rfc4648_base64 sigBytes)
       \<and> base64_decode (rfc4648_base64 sigBytes) = sigBytes
       \<and> (\<exists>sg. secp256k1_sign sample_externals message sample_key = Inr sg
                \<and> sigBytes = toCompactRawBytes sg
                \<and> length sigBytes = 64
                \<and> nat_of_bytes (take 32 sigBytes) = sig_r sg mod 2 ^ 256
                \<and> nat_of_bytes (drop 32 sigBytes) = sig_s sg mod 2 ^ 256)"
    by (simp only: ne if_False sample_key_hex message_def)
  then obtain sigBytes sg where
    pv: "js_get (js_get (JObj vc) ''proof'') ''proofValue''
           = JStr (CHR ''z'' # rfc4648_base64 sigBytes)"
    and dec: "base64_decode (rfc4648_base64 sigBytes) = sigBytes"
    and sg: "secp256k1_sign sample_externals message sample_key = Inr sg"
    and eq: "sigBytes = toCompactRawBytes sg"
    and len: "length sigBytes = 64"
    and r: "nat_of_bytes (take 32 sigBytes) = sig_r sg mod 2 ^ 256"
    and s: "nat_of_bytes (drop 32 sigBytes) = sig_s sg mod 2 ^ 256"
    by blast
  have "secp256k1_sign sample_externals message sample_key
          = Inr (sample_ecdsa sample_key message)"
    by (simp add: sample_externals_def valid_sample_key)
  with sg have sg': "sg = Signature 65 87"
    by (simp only: message_def sample_signature sum.inject)
  have b64: "rfc4648_base64 sigBytes
      = ''AAAAAAAAAAAAAAAAAAAAAAAAAAAAAAAAAAAAAAAAAEEAAAAAAAAAAAAAAAAAAAAAAAAAAAAAAAAAAAAAAAAAVw==''"
    by (simp only: eq sg' sample_compact_base64 base64_encode_rfc4648 [symmetric])
  have r': "nat_of_bytes (take 32 sigBytes) = 65"
    unfolding r sg' by simp
  have s': "nat_of_bytes (drop 32 sigBytes) = 87"
    unfolding s sg' by simp
  from pv dec len r' s' have
    "js_get (js_get (JObj vc) ''proof'') ''proofValue''
          = JStr ''zAAAAAAAAAAAAAAAAAAAAAAAAAAAAAAAAAAAAAAAAAEEAAAAAAAAAAAAAAAAAAAAAAAAAAAAAAAAAAAAAAAAAVw==''
      \<and> length (base64_decode
           ''AAAAAAAAAAAAAAAAAAAAAAAAAAAAAAAAAAAAAAAAAEEAAAAAAAAAAAAAAAAAAAAAAAAAAAAAAAAAAAAAAAAAVw=='')
          = 64
      \<and> nat_of_bytes (take 32 (base64_decode
           ''AAAAAAAAAAAAAAAAAAAAAAAAAAAAAAAAAAAAAAAAAEEAAAAAAAAAAAAAAAAAAAAAAAAAAAAAAAAAAAAAAAAAVw==''))
          = 65
      \<and> nat_of_bytes (drop 32 (base64_decode
           ''AAAAAAAAAAAAAAAAAAAAAAAAAAAAAAAAAAAAAAAAAEEAAAAAAAAAAAAAAAAAAAAAAAAAAAAAAAAAAAAAAAAAVw==''))
          = 87"
    unfolding b64 by (simp only: simp_thms)
  with vc show ?thesis by blast
qed


section \<open>Verifying what was issued\<close>

lemma issued_structure_ok:
  "structure_ok (unsigned_credential now uuid issuerDid subjectDid credentialType claims
                   @ [(''proof'', p)]) \<longleftrightarrow> issuerDid \<noteq> []"
  unfolding structure_ok_def by (simp only: issued_fields) simp

lemma issued_proof_present:
  "proof_present (unsigned_credential now uuid issuerDid subjectDid credentialType claims
                    @ [(''proof'', JObj (proof_block proofType now issuerDid sigBytes))])"
  unfolding proof_present_def by (simp only: issued_fields proof_fields) simp

lemma check_signature_issued:
  "check_signature X
     (unsigned_credential now uuid issuerDid subjectDid credentialType claims
        @ [(''proof'', JObj (proof_block proofType now issuerDid sigBytes))])
     issuerPublicKey keyType =
   (let credential = unsigned_credential now uuid issuerDid subjectDid credentialType claims
                       @ [(''proof'', JObj (proof_block proofType now issuerDid sigBytes))];
        message = utf8_json X (JObj (unsigned_credential now uuid issuerDid subjectDid
                                       credentialType claims));
        publicKeyBytes = hex_decode issuerPublicKey
    in if keyType = ''ed25519'' \<and> proofType = ''Ed25519Signature2020''
       then (case verifyEd25519 X sigBytes message publicKeyBytes of
               Inl e \<Rightarrow> (Inl e, [Ed25519Verify sigBytes message publicKeyBytes])
             | Inr ok \<Rightarrow> (Inr (conclude credential ok []),
                          [Ed25519Verify sigBytes message publicKeyBytes]))
       else if keyType = ''secp256k1'' \<and> proofType = ''EcdsaSecp256k1Signature2019''
       then (case verifySecp256k1 X sigBytes message publicKeyBytes of
               Inl e \<Rightarrow> (Inl e, [Secp256k1Verify sigBytes message publicKeyBytes])
             | Inr ok \<Rightarrow> (Inr (conclude credential ok []),
                          [Secp256k1Verify sigBytes message publicKeyBytes]))
       else (Inr (conclude credential False
                    [''Unsupported signature type or key mismatch'']), []))"
  unfolding check_signature_def Let_def
  by (simp only: issued_fields proof_fields stripped_shape jsval.case jsval.inject
        drop_Suc_Cons drop_0 One_nat_def base64_decode_encode)


lemma key_pair_hex:
  "hex_decode (privateKeyHex (generateEd25519KeyPair X sk)) = sk"
  "hex_decode (publicKeyHex (generateEd25519KeyPair X sk)) = ed25519_getPublicKey X sk"
  "hex_decode (privateKeyHex (generateSecp256k1KeyPair X sk)) = sk"
  "hex_decode (publicKeyHex (generateSecp256k1KeyPair X sk)) = secp256k1_getPublicKey X sk"
  by (simp_all add: generateEd25519KeyPair_def generateSecp256k1KeyPair_def Let_def
        hex_decode_encode)

lemma verify_issued_ed25519:
  assumes "ed25519_verify X sigBytes
             (utf8_json X (JObj (unsigned_credential now uuid issuerDid subjectDid
                                   credentialType claims)))
             (hex_decode issuerPublicKey) = Inr True"
      and "issuerDid \<noteq> []"
  shows "verify_traced X
           (unsigned_credential now uuid issuerDid subjectDid credentialType claims
              @ [(''proof'', JObj (proof_block ''Ed25519Signature2020'' now issuerDid sigBytes))])
           issuerPublicKey ''ed25519''
         = (conclude (unsigned_credential now uuid issuerDid subjectDid credentialType claims
              @ [(''proof'', JObj (proof_block ''Ed25519Signature2020'' now issuerDid sigBytes))])
              True [],
            [Ed25519Verify sigBytes
               (utf8_json X (JObj (unsigned_credential now uuid issuerDid subjectDid
                                     credentialType claims)))
               (hex_decode issuerPublicKey)])"
proof -
  have s: "structure_ok (unsigned_credential now uuid issuerDid subjectDid credentialType claims
              @ [(''proof'', JObj (proof_block ''Ed25519Signature2020'' now issuerDid sigBytes))])"
    using assms(2) by (simp add: issued_structure_ok)
  show ?thesis
    unfolding verify_late [OF s issued_proof_present] check_signature_issued Let_def
    using assms(1) by (simp add: verifyEd25519_def)
qed

lemma verify_issued_secp256k1:
  assumes "secp256k1_verify X sigBytes
             (utf8_json X (JObj (unsigned_credential now uuid issuerDid subjectDid
                                   credentialType claims)))
             (hex_decode issuerPublicKey) = Inr True"
      and "issuerDid \<noteq> []"
  shows "verify_traced X
           (unsigned_credential now uuid issuerDid subjectDid credentialType claims
              @ [(''proof'', JObj (proof_block ''EcdsaSecp256k1Signature2019'' now issuerDid
                                     sigBytes))])
           issuerPublicKey ''secp256k1''
         = (conclude (unsigned_credential now uuid issuerDid subjectDid credentialType claims
              @ [(''proof'', JObj (proof_block ''EcdsaSecp256k1Signature2019'' now issuerDid
                                     sigBytes))])
              True [],
            [Secp256k1Verify sigBytes
               (utf8_json X (JObj (unsigned_credential now uuid issuerDid subjectDid
                                     credentialType claims)))
               (hex_decode issuerPublicKey)])"
proof -
  have s: "structure_ok (unsigned_credential now uuid issuerDid subjectDid credentialType claims
              @ [(''proof'', JObj (proof_block ''EcdsaSecp256k1Signature2019'' now issuerDid
                                     sigBytes))])"
    using assms(2) by (simp add: issued_structure_ok)
  show ?thesis
    unfolding verify_late [OF s issued_proof_present] check_signature_issued Let_def
    using assms(1) by (simp add: verifySecp256k1_def)
qed

lemma length_tag64: "length (tag64 key message) = 64"
  by (simp add: tag64_def)

lemma sample_primitives_sound: "primitives_sound sample_externals"
  by (auto simp: primitives_sound_def sample_externals_def length_tag64 split: if_splits)

text \<open>
  Where the library's primitives accept what they sign, so do the wrappers of
  crypto.ts, and a credential issued for a non-empty issuer DID under a generated key
  pair of either scheme is verified under the public key and the key type of that
  pair, with no error reported.
\<close>

lemma wrappers_accept_what_they_sign:
  assumes "primitives_sound X"
  shows "signEd25519 X m sk = Inr sg
           \<Longrightarrow> verifyEd25519 X sg m (publicKey (generateEd25519KeyPair X sk)) = Inr True"
    and "signSecp256k1 X m sk = Inr sg
           \<Longrightarrow> verifySecp256k1 X sg m (publicKey (generateSecp256k1KeyPair X sk)) = Inr True"
proof -
  show "signEd25519 X m sk = Inr sg
           \<Longrightarrow> verifyEd25519 X sg m (publicKey (generateEd25519KeyPair X sk)) = Inr True"
    using assms unfolding primitives_sound_def
    by (simp add: signEd25519_def verifyEd25519_def generateEd25519KeyPair_def Let_def)
  show "signSecp256k1 X m sk = Inr sg
           \<Longrightarrow> verifySecp256k1 X sg m (publicKey (generateSecp256k1KeyPair X sk)) = Inr True"
    using assms unfolding primitives_sound_def
    by (auto simp: signSecp256k1_def verifySecp256k1_def generateSecp256k1KeyPair_def Let_def
        split: sum.splits)
qed

lemma issued_verifies_if_primitives_sound:
  assumes sound: "primitives_sound X"
      and kt: "keyType = ''ed25519'' \<or> keyType = ''secp256k1''"
      and nonempty: "issuerDid \<noteq> []"
      and kp: "kp = (if keyType = ''ed25519'' then generateEd25519KeyPair X sk
                     else generateSecp256k1KeyPair X sk)"
      and iss: "issueVerifiableCredential X now uuid issuerDid subjectDid credentialType claims
                  (privateKeyHex kp) keyType = Inr vc"
  shows "verified (verifyVerifiableCredential X vc (publicKeyHex kp) keyType)
     \<and> errors (verifyVerifiableCredential X vc (publicKeyHex kp) keyType) = None"
proof -
  have ed: "ed25519_verify X sg m (ed25519_getPublicKey X k) = Inr True"
    if "ed25519_sign X m k = Inr sg" for m k sg
    using sound that unfolding primitives_sound_def by blast
  have secp: "secp256k1_verify X (toCompactRawBytes sg) m (secp256k1_getPublicKey X k) = Inr True"
    if "secp256k1_sign X m k = Inr sg" for m k sg
    using sound that unfolding primitives_sound_def by blast
  show ?thesis
  proof (cases "keyType = ''ed25519''")
    case True
    then have kp': "kp = generateEd25519KeyPair X sk" using kp by simp
    from iss True obtain sigBytes where
      s: "ed25519_sign X
            (utf8_json X (JObj (unsigned_credential now uuid issuerDid subjectDid
                                  credentialType claims))) sk = Inr sigBytes"
      and vc: "vc = unsigned_credential now uuid issuerDid subjectDid credentialType claims
                      @ [(''proof'', JObj (proof_block ''Ed25519Signature2020'' now issuerDid
                                             sigBytes))]"
      unfolding issue_unfold Let_def kp' key_pair_hex
      by (auto simp: signEd25519_def split: sum.splits)
    have "ed25519_verify X sigBytes
             (utf8_json X (JObj (unsigned_credential now uuid issuerDid subjectDid
                                   credentialType claims)))
             (hex_decode (publicKeyHex kp)) = Inr True"
      unfolding kp' key_pair_hex by (rule ed [OF s])
    from verify_issued_ed25519 [OF this nonempty] show ?thesis
      unfolding verifyVerifiableCredential_def vc True
      by (simp add: conclude_def)
  next
    case False
    with kt have k: "keyType = ''secp256k1''" by blast
    from False have kp': "kp = generateSecp256k1KeyPair X sk" using kp by simp
    from iss False obtain sg where
      s: "secp256k1_sign X
            (utf8_json X (JObj (unsigned_credential now uuid issuerDid subjectDid
                                  credentialType claims))) sk = Inr sg"
      and vc: "vc = unsigned_credential now uuid issuerDid subjectDid credentialType claims
                      @ [(''proof'', JObj (proof_block ''EcdsaSecp256k1Signature2019'' now
                                             issuerDid (toCompactRawBytes sg)))]"
      unfolding issue_unfold Let_def kp' key_pair_hex
      by (auto simp: signSecp256k1_def split: sum.splits)
    have "secp256k1_verify X (toCompactRawBytes sg)
             (utf8_json X (JObj (unsigned_credential now uuid issuerDid subjectDid
                                   credentialType claims)))
             (hex_decode (publicKeyHex kp)) = Inr True"
      unfolding kp' key_pair_hex by (rule secp [OF s])
    from verify_issued_secp256k1 [OF this nonempty] show ?thesis
      unfolding verifyVerifiableCredential_def vc k
      by (simp add: conclude_def)
  qed
qed


section \<open>DID encoding\<close>

lemma did_of_generated:
  "did (generateDidKey X keyType sk)
     = ''did:key:z'' @ base58_encode
         ((if keyType = ''ed25519'' then [0xed, 0x01] else [0xe7, 0x01])
            @ publicKey (keyPair (generateDidKey X keyType sk)))"
  by (simp add: generateDidKey_def Let_def base58btc_encode_def)

lemma decode_generated:
  "decodeDidKey (did (generateDidKey X keyType sk))
     = Some (publicKey (keyPair (generateDidKey X keyType sk)))"
  unfolding did_of_generated decodeDidKey_def
  by (simp add: base58_decode_encode)


text \<open>
  C5. The DID is a function of the key type and the public key bytes alone: equal
  public key bytes under the same branch of the key type give equal DIDs, whatever
  else differs. Two generated DIDs are equal only if their public keys are equal,
  under the same or different key types. Decoding the multibase part of a generated
  DID gives back the public key bytes.
\<close>

theorem did_encoding_injective:
  "decodeDidKey (did (generateDidKey X keyType sk))
     = Some (publicKey (keyPair (generateDidKey X keyType sk)))
   \<and> (did (generateDidKey X keyType sk) = did (generateDidKey X' keyType' sk')
        \<longrightarrow> publicKey (keyPair (generateDidKey X keyType sk))
              = publicKey (keyPair (generateDidKey X' keyType' sk')))
   \<and> (publicKey (keyPair (generateDidKey X keyType sk))
          = publicKey (keyPair (generateDidKey X' keyType' sk'))
        \<and> (keyType = ''ed25519'' \<longleftrightarrow> keyType' = ''ed25519'')
        \<longrightarrow> did (generateDidKey X keyType sk) = did (generateDidKey X' keyType' sk'))"
proof (intro conjI impI)
  show "decodeDidKey (did (generateDidKey X keyType sk))
          = Some (publicKey (keyPair (generateDidKey X keyType sk)))"
    by (rule decode_generated)
next
  assume "did (generateDidKey X keyType sk) = did (generateDidKey X' keyType' sk')"
  then have "decodeDidKey (did (generateDidKey X keyType sk))
               = decodeDidKey (did (generateDidKey X' keyType' sk'))"
    by simp
  then show "publicKey (keyPair (generateDidKey X keyType sk))
               = publicKey (keyPair (generateDidKey X' keyType' sk'))"
    unfolding decode_generated by simp
next
  assume "publicKey (keyPair (generateDidKey X keyType sk))
            = publicKey (keyPair (generateDidKey X' keyType' sk'))
          \<and> (keyType = ''ed25519'' \<longleftrightarrow> keyType' = ''ed25519'')"
  then show "did (generateDidKey X keyType sk) = did (generateDidKey X' keyType' sk')"
    unfolding did_of_generated by auto
qed

lemma sample_public_key:
  "publicKey (keyPair (generateDidKey sample_externals keyType sk)) = sk"
  by (simp add: generateDidKey_def Let_def generateEd25519KeyPair_def
        generateSecp256k1KeyPair_def sample_externals_def)

theorem did_encoding_injective_witness:
  "decodeDidKey (did (generateDidKey sample_externals ''ed25519'' [1, 2, 3])) = Some [1, 2, 3]
   \<and> did (generateDidKey sample_externals ''ed25519'' [1, 2, 3])
       \<noteq> did (generateDidKey sample_externals ''ed25519'' [1, 2, 4])
   \<and> did (generateDidKey sample_externals ''secp256k1'' [1, 2, 3])
       = did (generateDidKey (sample_externals\<lparr>utf8_json := \<lambda>v. []\<rparr>) ''secp256k1'' [1, 2, 3])"
proof -
  have a: "decodeDidKey (did (generateDidKey sample_externals ''ed25519'' [1, 2, 3]))
             = Some [1, 2, 3]"
    using did_encoding_injective [of sample_externals "''ed25519''" "[1, 2, 3]"]
    by (simp add: sample_public_key)
  have b: "did (generateDidKey sample_externals ''ed25519'' [1, 2, 3])
       \<noteq> did (generateDidKey sample_externals ''ed25519'' [1, 2, 4])"
    using did_encoding_injective [of sample_externals "''ed25519''" "[1, 2, 3]"
        sample_externals "''ed25519''" "[1, 2, 4]"]
    by (auto simp: sample_public_key)
  have "publicKey (keyPair (generateDidKey (sample_externals\<lparr>utf8_json := \<lambda>v. []\<rparr>)
          ''secp256k1'' [1, 2, 3])) = [1, 2, 3]"
    by (simp add: generateDidKey_def Let_def generateSecp256k1KeyPair_def sample_externals_def)
  then have c: "did (generateDidKey sample_externals ''secp256k1'' [1, 2, 3])
       = did (generateDidKey (sample_externals\<lparr>utf8_json := \<lambda>v. []\<rparr>) ''secp256k1'' [1, 2, 3])"
    using did_encoding_injective [of sample_externals "''secp256k1''" "[1, 2, 3]"
        "sample_externals\<lparr>utf8_json := \<lambda>v. []\<rparr>" "''secp256k1''" "[1, 2, 3]"]
    by (simp add: sample_public_key)
  from a b c show ?thesis by blast
qed

end
